theory Spec2Isabelle
  imports Main
begin

section \<open>The vLLM process supervisor of backend/main.py\<close>

text \<open>
  The class \<open>VLLMManager\<close> keeps one dictionary, \<open>self.processes\<close>, from a display name
  to \<open>{'process': handle, 'port': port, 'status': status}\<close>. Its methods are embedded
  with the dictionary passed in and returned. Everything a method asks of the operating
  system (a socket connect, a spawn, a signal, a wait) is a field of the record \<open>os\<close>
  given to the call: the answer the system gives at that call. A string is a list of
  characters, each a code point below 256.
\<close>

subsection \<open>Exceptions\<close>

text \<open>
  The exception classes the methods meet. \<open>ZombieProcess\<close> is a subclass of
  \<open>NoSuchProcess\<close> in psutil, so \<open>except psutil.NoSuchProcess\<close> catches both.
\<close>

datatype exn =
    AttributeError
  | TypeError
  | ProcessLookupError
  | PermissionError
  | OSError
  | NoSuchProcess
  | AccessDenied
  | ZombieProcess
  | TimeoutError
  | TimeoutExpired
  | OtherException string

fun is_NoSuchProcess :: "exn \<Rightarrow> bool" where
  "is_NoSuchProcess NoSuchProcess = True"
| "is_NoSuchProcess ZombieProcess = True"
| "is_NoSuchProcess _ = False"

subsection \<open>Registry entries\<close>

text \<open>
  A handle is either the \<open>asyncio\<close> subprocess object returned by
  \<open>create_subprocess_exec\<close> or a \<open>psutil.Process\<close> found by the scan; each carries
  the number the operating system knows it by.
\<close>

datatype handle = Asyncio nat | Psutil nat

text \<open>The \<open>'port'\<close> field is an integer, or the string \<open>'N/A'\<close> for a zombie worker.\<close>

datatype port_val = PortInt int | PortNA

text \<open>The \<open>'status'\<close> field only ever holds one of three string constants.\<close>

datatype inst_status = Starting | Running | Zombie

record proc_info =
  process :: handle
  port :: port_val
  status :: inst_status

text \<open>
  A Python dictionary keeps insertion order, and \<open>get_status\<close> lists the entries in that
  order, so the registry is an association list.
\<close>

type_synonym registry = "(string \<times> proc_info) list"

fun dict_get :: "registry \<Rightarrow> string \<Rightarrow> proc_info option" where
  "dict_get [] k = None"
| "dict_get ((k', v) # r) k = (if k' = k then Some v else dict_get r k)"

text \<open>\<open>d[k] = v\<close>: an existing key keeps its place, a new key goes to the end.\<close>

fun dict_set :: "registry \<Rightarrow> string \<Rightarrow> proc_info \<Rightarrow> registry" where
  "dict_set [] k v = [(k, v)]"
| "dict_set ((k', v') # r) k v = (if k' = k then (k, v) # r else (k', v') # dict_set r k v)"

text \<open>\<open>del d[k]\<close>, only ever executed for a key that is present.\<close>

fun dict_del :: "registry \<Rightarrow> string \<Rightarrow> registry" where
  "dict_del [] k = []"
| "dict_del ((k', v') # r) k = (if k' = k then dict_del r k else (k', v') # dict_del r k)"

definition dict_keys :: "registry \<Rightarrow> string list" where
  "dict_keys r = map fst r"

subsection \<open>The operating system as seen by one call\<close>

text \<open>
  A call that may block: it returns, raises, or never comes back. The wait with a
  timeout raises \<open>TimeoutError\<close> when the five seconds pass.
\<close>

datatype outcome = Returns | Raises exn | Hangs

record os =
  connect_ex :: "int \<Rightarrow> exn + int"
    \<comment> \<open>\<open>socket(...)\<close> then \<open>s.connect_ex(('localhost', port))\<close>: the error number, 0 for a
        connection, or the exception raised on the way\<close>
  returncode :: "nat \<Rightarrow> int option"
    \<comment> \<open>\<open>.returncode\<close> of an asyncio subprocess: \<open>None\<close> until it has exited\<close>
  spawn :: "string list \<Rightarrow> exn + nat"
    \<comment> \<open>\<open>asyncio.create_subprocess_exec(*cmd)\<close>\<close>
  is_running :: "nat \<Rightarrow> exn + bool"
    \<comment> \<open>\<open>psutil.Process.is_running()\<close>\<close>
  ps_status :: "nat \<Rightarrow> exn + string"
    \<comment> \<open>\<open>psutil.Process.status()\<close>\<close>
  os_kill :: "nat \<Rightarrow> exn option"
    \<comment> \<open>\<open>os.kill(pid, 9)\<close>: \<open>None\<close> when the signal was delivered\<close>
  shell_kill :: "nat \<Rightarrow> exn option"
    \<comment> \<open>\<open>subprocess.run(f"kill -9 {pid}", shell=True)\<close>: \<open>None\<close> when the shell ran, whatever
        its exit code\<close>
  terminate :: "handle \<Rightarrow> exn option"
    \<comment> \<open>\<open>proc.terminate()\<close>\<close>
  wait_for5 :: "handle \<Rightarrow> outcome"
    \<comment> \<open>\<open>await asyncio.wait_for(proc.wait(), timeout=5.0)\<close>\<close>
  kill :: "handle \<Rightarrow> exn option"
    \<comment> \<open>\<open>proc.kill()\<close>\<close>
  wait_end :: "handle \<Rightarrow> outcome"
    \<comment> \<open>\<open>await proc.wait()\<close> after the kill\<close>
  ps_wait5 :: "handle \<Rightarrow> outcome"
    \<comment> \<open>\<open>proc.wait(timeout=5)\<close> of psutil, which raises \<open>TimeoutExpired\<close>\<close>
  template_path :: string
    \<comment> \<open>\<open>os.path.join(os.path.dirname(__file__), "chat_template.jinja")\<close>\<close>

subsection \<open>Port allocator\<close>

text \<open>
  \<open>_is_port_in_use\<close>: a connect that returns 0 means in use; the bare \<open>except\<close> turns any
  exception into \<open>True\<close> as well.
\<close>

definition is_port_in_use :: "os \<Rightarrow> int \<Rightarrow> bool" where
  "is_port_in_use s p = (case connect_ex s p of Inr rc \<Rightarrow> rc = 0 | Inl e \<Rightarrow> True)"

definition base_port :: int where
  "base_port = 8001"

text \<open>
  The \<open>while\<close> loop of \<open>_get_next_free_port\<close> has no upper bound: when every probe from
  the start on says in use it never returns, which is the value \<open>None\<close> here.
\<close>

partial_function (option) next_free_port_from :: "os \<Rightarrow> int \<Rightarrow> int option" where
  "next_free_port_from s p =
     (if is_port_in_use s p then next_free_port_from s (p + 1) else Some p)"

declare next_free_port_from.simps [code]

definition get_next_free_port :: "os \<Rightarrow> int option" where
  "get_next_free_port s = next_free_port_from s base_port"

subsection \<open>Strings\<close>

text \<open>\<open>str(n)\<close> for a natural number and for an integer, in decimal.\<close>

definition digit_char :: "nat \<Rightarrow> char" where
  "digit_char d = ''0123456789'' ! d"

fun str_nat :: "nat \<Rightarrow> string" where
  "str_nat n = (if n < 10 then [digit_char n] else str_nat (n div 10) @ [digit_char (n mod 10)])"

declare str_nat.simps [simp del]

definition str_int :: "int \<Rightarrow> string" where
  "str_int i = (if i < 0 then CHR ''-'' # str_nat (nat (- i)) else str_nat (nat i))"

fun is_prefix :: "string \<Rightarrow> string \<Rightarrow> bool" where
  "is_prefix [] s = True"
| "is_prefix (c # cs) [] = False"
| "is_prefix (c # cs) (d # ds) = (c = d \<and> is_prefix cs ds)"

text \<open>\<open>sub in s\<close> for two strings.\<close>

fun str_contains :: "string \<Rightarrow> string \<Rightarrow> bool" where
  "str_contains sub [] = (sub = [])"
| "str_contains sub (c # cs) = (is_prefix sub (c # cs) \<or> str_contains sub cs)"

text \<open>\<open>' '.join(xs)\<close>.\<close>

fun join_space :: "string list \<Rightarrow> string" where
  "join_space [] = []"
| "join_space [x] = x"
| "join_space (x # y # ys) = x @ '' '' @ join_space (y # ys)"

text \<open>
  \<open>s.lower()\<close>: below 256 the capital letters are 65 to 90 and 192 to 222 without 215,
  and each has its small letter 32 places on.
\<close>

definition lower_char :: "char \<Rightarrow> char" where
  "lower_char c =
     (let n = (of_char c :: nat)
      in if (65 \<le> n \<and> n \<le> 90) \<or> (192 \<le> n \<and> n \<le> 222 \<and> n \<noteq> 215)
         then char_of (n + 32) else c)"

definition str_lower :: "string \<Rightarrow> string" where
  "str_lower s = map lower_char s"

subsection \<open>Results of the operations\<close>

text \<open>
  The operations answer with a dictionary \<open>{"status": ..., "message": ...}\<close>, and
  \<open>"port"\<close> on a successful start. A message is kept as the template it is formatted
  from and the values put into it; the message of a stop is the list of per-target
  notes that \<open>", ".join(results)\<close> joins.
\<close>

datatype stop_note =
    KilledZombie string
      \<comment> \<open>\<open>f"Killed zombie {name}"\<close>\<close>
  | ErrorKillingZombie string exn
      \<comment> \<open>\<open>f"Error killing zombie {name}: {e}"\<close>\<close>
  | Stopped string
      \<comment> \<open>\<open>f"Stopped {name}"\<close>\<close>
  | ErrorStopping string exn
      \<comment> \<open>\<open>f"Error stopping structure for {name}: {e}"\<close>\<close>

datatype message =
    MsgAlreadyRunning string port_val
      \<comment> \<open>\<open>f"Model {model_name} is already running on port {proc_info['port']}"\<close>\<close>
  | MsgMaxLimit
      \<comment> \<open>\<open>"Max model limit reached (3). Stop a model first."\<close>\<close>
  | MsgStarting string int
      \<comment> \<open>\<open>f"Starting {model_name} on port {port}"\<close>\<close>
  | MsgException exn
      \<comment> \<open>\<open>str(e)\<close>\<close>
  | MsgNotFound string
      \<comment> \<open>\<open>f"Model {model_name} not found"\<close>\<close>
  | MsgJoined "stop_note list"

record response =
  resp_status :: string
  resp_message :: message
  resp_port :: "int option"

definition error_response :: "message \<Rightarrow> response" where
  "error_response m = \<lparr> resp_status = ''error'', resp_message = m, resp_port = None \<rparr>"

subsection \<open>Start\<close>

text \<open>
  \<open>proc_info['process'].returncode\<close>. The asyncio subprocess has the attribute; a
  \<open>psutil.Process\<close> has none, and reading it raises \<open>AttributeError\<close>.
\<close>

definition handle_returncode :: "os \<Rightarrow> handle \<Rightarrow> exn + int option" where
  "handle_returncode s h =
     (case h of Asyncio i \<Rightarrow> Inr (returncode s i) | Psutil pid \<Rightarrow> Inl AttributeError)"

definition vllm_path :: string where
  "vllm_path = ''/home/sinergi/AI/vllm/venv/bin/vllm''"

definition build_cmd :: "os \<Rightarrow> string \<Rightarrow> int \<Rightarrow> string list" where
  "build_cmd s model_name p =
     [vllm_path, ''serve'', model_name, ''--port'', str_int p,
      ''--gpu-memory-utilization'', ''0.25'', ''--dtype'', ''auto'',
      ''--enforce-eager'', ''--disable-log-stats'']
     @ (if str_contains ''opt'' (str_lower model_name)
           \<or> str_contains ''pythia'' (str_lower model_name)
           \<or> str_contains ''gpt'' (str_lower model_name)
        then [''--chat-template'', template_path s] else [])"

text \<open>
  The first block of \<open>start_server\<close>, which runs outside the \<open>try\<close>: a registered name
  whose handle has a return code is deleted, one without returns the error, and the
  \<open>AttributeError\<close> of a scanned handle leaves the method. \<open>Inr\<close> carries the registry
  the method goes on with, \<open>Inl\<close> the way it ends.
\<close>

definition start_check ::
  "os \<Rightarrow> string \<Rightarrow> registry \<Rightarrow> (exn + response) + registry" where
  "start_check s model_name procs =
     (case dict_get procs model_name of
        None \<Rightarrow> Inr procs
      | Some info \<Rightarrow>
          (case handle_returncode s (process info) of
             Inl e \<Rightarrow> Inl (Inl e)
           | Inr (Some rc) \<Rightarrow> Inr (dict_del procs model_name)
           | Inr None \<Rightarrow>
               Inl (Inr (error_response (MsgAlreadyRunning model_name (port info))))))"

text \<open>
  \<open>start_server\<close>. The result is \<open>None\<close> when the port scan never ends; otherwise the
  exception that left the method or the dictionary it returned, with the registry
  after the call.
\<close>

definition start_server ::
  "os \<Rightarrow> string \<Rightarrow> registry \<Rightarrow> ((exn + response) \<times> registry) option" where
  "start_server s model_name procs =
     (case start_check s model_name procs of
        Inl ending \<Rightarrow> Some (ending, procs)
      | Inr procs1 \<Rightarrow>
          if length procs1 \<ge> 3 then Some (Inr (error_response MsgMaxLimit), procs1)
          else
            (case get_next_free_port s of
               None \<Rightarrow> None
             | Some p \<Rightarrow>
                 (case spawn s (build_cmd s model_name p) of
                    Inl e \<Rightarrow> Some (Inr (error_response (MsgException e)), procs1)
                  | Inr child \<Rightarrow>
                      Some (Inr \<lparr> resp_status = ''success'',
                                  resp_message = MsgStarting model_name p,
                                  resp_port = Some p \<rparr>,
                            dict_set procs1 model_name
                              \<lparr> process = Asyncio child, port = PortInt p,
                                status = Starting \<rparr>))))"

subsection \<open>Stop\<close>

definition is_digit :: "char \<Rightarrow> bool" where
  "is_digit c = (c \<in> set ''0123456789'')"

text \<open>
  \<open>re.search(r'\((\d+)\)', name)\<close>: group 1 of the leftmost match, the digits of the first
  parenthesis that holds digits only.
\<close>

fun find_pid :: "string \<Rightarrow> string option" where
  "find_pid [] = None"
| "find_pid (c # cs) =
     (if c = CHR ''(''
         \<and> takeWhile is_digit cs \<noteq> []
         \<and> is_prefix '')'' (dropWhile is_digit cs)
      then Some (takeWhile is_digit cs)
      else find_pid cs)"

text \<open>\<open>int(s)\<close> for a string of decimal digits.\<close>

definition digit_val :: "char \<Rightarrow> nat" where
  "digit_val c = (of_char c :: nat) - 48"

definition nat_of_digits :: "string \<Rightarrow> nat" where
  "nat_of_digits ds = foldl (\<lambda>acc c. 10 * acc + digit_val c) 0 ds"

text \<open>
  The zombie branch of \<open>stop_server\<close>, from the \<open>try\<close> to its \<open>continue\<close>. A
  \<open>ProcessLookupError\<close> of \<open>os.kill\<close> is passed over; any other exception sends the kill
  through the shell, and an exception of that call reaches the outer handler, which
  notes the error and goes on without deleting the entry.
\<close>

definition kill_zombie :: "os \<Rightarrow> string \<Rightarrow> exn option" where
  "kill_zombie s name =
     (case find_pid name of
        None \<Rightarrow> None
      | Some ds \<Rightarrow>
          (case os_kill s (nat_of_digits ds) of
             None \<Rightarrow> None
           | Some e \<Rightarrow>
               if e = ProcessLookupError then None else shell_kill s (nat_of_digits ds)))"

definition stop_zombie :: "os \<Rightarrow> string \<Rightarrow> registry \<Rightarrow> registry \<times> stop_note" where
  "stop_zombie s name procs =
     (case kill_zombie s name of
        None \<Rightarrow> (dict_del procs name, KilledZombie name)
      | Some e \<Rightarrow> (procs, ErrorKillingZombie name e))"

text \<open>
  The termination sequence of the other branch. Both kinds of handle have a
  \<open>terminate\<close> method, so \<open>hasattr(proc, 'terminate')\<close> holds for each and the \<open>elif\<close> is
  never reached.
\<close>

definition has_terminate :: "handle \<Rightarrow> bool" where
  "has_terminate h = True"

definition is_psutil :: "handle \<Rightarrow> bool" where
  "is_psutil h = (case h of Psutil pid \<Rightarrow> True | Asyncio i \<Rightarrow> False)"

definition terminate_sequence :: "os \<Rightarrow> handle \<Rightarrow> outcome" where
  "terminate_sequence s proc =
     (if has_terminate proc then
        (case terminate s proc of
           Some e \<Rightarrow> Raises e
         | None \<Rightarrow>
             (case wait_for5 s proc of
                Raises e \<Rightarrow>
                  if e = TimeoutError then
                    (case kill s proc of Some e' \<Rightarrow> Raises e' | None \<Rightarrow> wait_end s proc)
                  else Raises e
              | r \<Rightarrow> r))
      else if is_psutil proc then
        (case terminate s proc of
           Some e \<Rightarrow> Raises e
         | None \<Rightarrow>
             (case ps_wait5 s proc of
                Raises e \<Rightarrow>
                  if e = TimeoutExpired then
                    (case kill s proc of Some e' \<Rightarrow> Raises e' | None \<Rightarrow> Returns)
                  else Raises e
              | r \<Rightarrow> r))
      else Returns)"

text \<open>
  The loop over the targets. After the termination sequence the source looks for a
  process still bound to the port and kills it inside \<open>try: ... except: pass\<close>; that block
  changes neither the registry nor the result and is left out. \<open>None\<close>: a wait never
  came back.
\<close>

fun stop_targets ::
  "os \<Rightarrow> string list \<Rightarrow> registry \<Rightarrow> stop_note list \<Rightarrow> (registry \<times> stop_note list) option"
where
  "stop_targets s [] procs results = Some (procs, results)"
| "stop_targets s (name # rest) procs results =
     (case dict_get procs name of
        None \<Rightarrow> stop_targets s rest procs results
      | Some info \<Rightarrow>
          if str_contains ''Zombie Process'' name \<and> status info = Zombie then
            (case stop_zombie s name procs of
               (procs', note) \<Rightarrow> stop_targets s rest procs' (results @ [note]))
          else
            (case terminate_sequence s (process info) of
               Hangs \<Rightarrow> None
             | Returns \<Rightarrow>
                 stop_targets s rest (dict_del procs name) (results @ [Stopped name])
             | Raises e \<Rightarrow>
                 stop_targets s rest (dict_del procs name) (results @ [ErrorStopping name e])))"

text \<open>
  The targets of \<open>stop_server\<close>; \<open>if model_name:\<close> holds for a name that is given and not
  empty. A name that is not registered ends the call with an error.
\<close>

definition resolve_targets :: "string option \<Rightarrow> registry \<Rightarrow> response + string list" where
  "resolve_targets model_name procs =
     (case model_name of
        None \<Rightarrow> Inr (dict_keys procs)
      | Some n \<Rightarrow>
          if n = [] then Inr (dict_keys procs)
          else if dict_get procs n = None then Inl (error_response (MsgNotFound n))
          else Inr [n])"

definition stop_server ::
  "os \<Rightarrow> string option \<Rightarrow> registry \<Rightarrow> (response \<times> registry) option" where
  "stop_server s model_name procs =
     (case resolve_targets model_name procs of
        Inl r \<Rightarrow> Some (r, procs)
      | Inr targets \<Rightarrow>
          (case stop_targets s targets procs [] of
             None \<Rightarrow> None
           | Some (procs', results) \<Rightarrow>
               Some (\<lparr> resp_status = ''success'', resp_message = MsgJoined results,
                       resp_port = None \<rparr>, procs')))"

subsection \<open>Status\<close>

text \<open>
  The liveness check of \<open>get_status\<close>. For a scanned handle both branches of the \<open>if\<close> are
  \<open>pass\<close>, so \<open>is_dead\<close> is set only by the handler of \<open>psutil.NoSuchProcess\<close>; \<open>status()\<close>
  is called only when \<open>is_running()\<close> answered true. Any other exception leaves the
  method. For a subprocess of the manager a return code means dead.
\<close>

definition is_dead :: "os \<Rightarrow> handle \<Rightarrow> exn + bool" where
  "is_dead s proc =
     (case proc of
        Psutil pid \<Rightarrow>
          (case (case is_running s pid of
                   Inl e \<Rightarrow> Inl e
                 | Inr alive \<Rightarrow>
                     if \<not> alive then Inr False
                     else (case ps_status s pid of Inl e \<Rightarrow> Inl e | Inr st \<Rightarrow> Inr False)) of
             Inl e \<Rightarrow> if is_NoSuchProcess e then Inr True else Inl e
           | Inr d \<Rightarrow> Inr d)
      | Asyncio i \<Rightarrow> Inr (returncode s i \<noteq> None))"

text \<open>One element of \<open>active_models\<close>: name, port and status.\<close>

type_synonym model_view = "string \<times> port_val \<times> inst_status"

text \<open>
  The update of \<open>info['status']\<close>: a starting entry with an integer port becomes running
  when the port answers.
\<close>

definition probe_entry :: "os \<Rightarrow> proc_info \<Rightarrow> proc_info" where
  "probe_entry s info =
     (if status info = Starting then
        (case port info of
           PortInt p \<Rightarrow> if is_port_in_use s p then info \<lparr> status := Running \<rparr> else info
         | PortNA \<Rightarrow> info)
      else info)"

text \<open>
  The loop over \<open>self.processes.items()\<close>. It returns the entries as the loop leaves
  them (a status is updated in place) and either the exception that ended the loop or
  \<open>active_models\<close> and \<open>models_to_remove\<close>.
\<close>

fun status_loop ::
  "os \<Rightarrow> registry \<Rightarrow> registry \<times> (exn + model_view list \<times> string list)" where
  "status_loop s [] = ([], Inr ([], []))"
| "status_loop s ((name, info) # rest) =
     (case is_dead s (process info) of
        Inl e \<Rightarrow> ((name, info) # rest, Inl e)
      | Inr dead \<Rightarrow>
          if dead \<and> status info \<noteq> Zombie then
            (case status_loop s rest of
               (rest', Inl e) \<Rightarrow> ((name, info) # rest', Inl e)
             | (rest', Inr (active, remove)) \<Rightarrow>
                 ((name, info) # rest', Inr (active, name # remove)))
          else
            (case status_loop s rest of
               (rest', Inl e) \<Rightarrow> ((name, probe_entry s info) # rest', Inl e)
             | (rest', Inr (active, remove)) \<Rightarrow>
                 ((name, probe_entry s info) # rest',
                  Inr ((name, port info, status (probe_entry s info)) # active, remove))))"

record status_result =
  running :: bool
  models :: "model_view list"

definition get_status :: "os \<Rightarrow> registry \<Rightarrow> (exn + status_result) \<times> registry" where
  "get_status s procs =
     (case status_loop s procs of
        (procs', Inl e) \<Rightarrow> (Inl e, procs')
      | (procs', Inr (active, remove)) \<Rightarrow>
          (Inr \<lparr> running = (length active > 0), models = active \<rparr>,
           foldl dict_del procs' remove))"

subsection \<open>Discovery\<close>

text \<open>
  One process of \<open>psutil.process_iter(['pid', 'name', 'cmdline', 'ppid'])\<close>: its \<open>info\<close>
  dictionary, where a field the scan could not read is \<open>None\<close>.
\<close>

record scanned =
  info_pid :: nat
  info_name :: "string option"
  info_cmdline :: "string list option"
  info_ppid :: "nat option"

text \<open>
  The white space that \<open>int()\<close> strips: the blank and the characters 9 to 13, and of
  the characters above 127 those that are white space, which are 133 and 160 below
  256. The characters 28 to 31 are not stripped.
\<close>

definition is_space :: "char \<Rightarrow> bool" where
  "is_space c = (c \<in> set [CHR '' '', CHR 0x09, CHR 0x0A, CHR 0x0B, CHR 0x0C, CHR 0x0D,
                            CHR 0x85, CHR 0xA0])"

definition strip :: "string \<Rightarrow> string" where
  "strip s = rev (dropWhile is_space (rev (dropWhile is_space s)))"

text \<open>Decimal digits, where one underscore may stand between two digits.\<close>

fun digits_ok :: "string \<Rightarrow> bool" where
  "digits_ok [] = False"
| "digits_ok [c] = is_digit c"
| "digits_ok (c # d # r) =
     (is_digit c \<and> (if d = CHR ''_'' then digits_ok r else digits_ok (d # r)))"

text \<open>
  \<open>int(s)\<close>: surrounding white space, an optional sign, decimal digits, and no more
  than 4300 of them, the default limit of the interpreter. \<open>None\<close> stands for the
  \<open>ValueError\<close>. Below 256 the only decimal digits are \<open>0\<close> to \<open>9\<close>.
\<close>

definition max_str_digits :: nat where
  "max_str_digits = 4300"

definition py_int :: "string \<Rightarrow> int option" where
  "py_int s =
     (case (case strip s of
              [] \<Rightarrow> (False, [])
            | c # r \<Rightarrow>
                if c = CHR ''-'' then (True, r)
                else if c = CHR ''+'' then (False, r)
                else (False, c # r)) of
        (neg, body) \<Rightarrow>
          if digits_ok body
             \<and> length (filter (\<lambda>c. c \<noteq> CHR ''_'') body) \<le> max_str_digits then
            Some ((if neg then - 1 else 1)
                  * int (nat_of_digits (filter (\<lambda>c. c \<noteq> CHR ''_'') body)))
          else None)"

text \<open>
  The loop \<open>for i, arg in enumerate(cmdline)\<close>: an argument that has a successor sets the
  model name when it is \<open>serve\<close> and the port when it is \<open>--port\<close> and the successor
  parses.
\<close>

fun scan_args :: "string list \<Rightarrow> string \<times> int \<Rightarrow> string \<times> int" where
  "scan_args [] acc = acc"
| "scan_args [a] acc = acc"
| "scan_args (a # b # rest) (m, p) =
     scan_args (b # rest)
       (if a = ''serve'' then b else m,
        if a = ''--port'' then (case py_int b of Some n \<Rightarrow> n | None \<Rightarrow> p) else p)"

text \<open>
  \<open>cmd_str = ' '.join(cmdline) if cmdline else name\<close>; either may be \<open>None\<close>.
\<close>

definition cmd_str_of :: "scanned \<Rightarrow> string option" where
  "cmd_str_of pr =
     (case info_cmdline pr of
        Some (a # as) \<Rightarrow> Some (join_space (a # as))
      | _ \<Rightarrow> info_name pr)"

text \<open>
  The first check of the loop body: the model name and port of a serving instance, or
  \<open>None\<close> when the process is none. \<open>in\<close> applied to \<open>None\<close> raises \<open>TypeError\<close>.
\<close>

definition serve_match :: "scanned \<Rightarrow> exn + (string \<times> int) option" where
  "serve_match pr =
     (case cmd_str_of pr of
        None \<Rightarrow> Inl TypeError
      | Some cs \<Rightarrow>
          if str_contains ''vllm'' cs then
            (case info_cmdline pr of
               None \<Rightarrow> Inl TypeError
             | Some args \<Rightarrow>
                 if ''serve'' \<in> set args then Inr (Some (scan_args args (''Unknown'', 8001)))
                 else Inr None)
          else Inr None)"

definition display_name :: "string \<Rightarrow> nat \<Rightarrow> string" where
  "display_name model_name pid =
     (if model_name = ''Unknown'' then ''Unknown (PID:'' @ str_nat pid @ '')'' else model_name)"

definition zombie_name :: "nat \<Rightarrow> string" where
  "zombie_name pid = ''Zombie Process ('' @ str_nat pid @ '')''"

text \<open>The second check: the engine marker in the joined string or in the name.\<close>

definition engine_match :: "scanned \<Rightarrow> exn + bool" where
  "engine_match pr =
     (case cmd_str_of pr of
        None \<Rightarrow> Inl TypeError
      | Some cs \<Rightarrow>
          if str_contains ''VLLM::EngineCore'' cs then Inr True
          else (case info_name pr of
                  None \<Rightarrow> Inl TypeError
                | Some n \<Rightarrow> Inr (str_contains ''VLLM::EngineCore'' n)))"

text \<open>
  The body of the scan loop. The inner handler catches the exceptions of psutil only,
  so a \<open>TypeError\<close> reaches the outer handler and ends the scan.
\<close>

definition discover_one :: "scanned \<Rightarrow> registry \<Rightarrow> exn + registry" where
  "discover_one pr procs =
     (case serve_match pr of
        Inl e \<Rightarrow> Inl e
      | Inr (Some (model_name, p)) \<Rightarrow>
          Inr (dict_set procs (display_name model_name (info_pid pr))
                 \<lparr> process = Psutil (info_pid pr), port = PortInt p, status = Running \<rparr>)
      | Inr None \<Rightarrow>
          (case engine_match pr of
             Inl e \<Rightarrow> Inl e
           | Inr False \<Rightarrow> Inr procs
           | Inr True \<Rightarrow>
               if info_ppid pr = Some 1 then
                 Inr (dict_set procs (zombie_name (info_pid pr))
                        \<lparr> process = Psutil (info_pid pr), port = PortNA, status = Zombie \<rparr>)
               else Inr procs))"

fun discover_loop :: "scanned list \<Rightarrow> registry \<Rightarrow> registry" where
  "discover_loop [] procs = procs"
| "discover_loop (pr # rest) procs =
     (case discover_one pr procs of
        Inl e \<Rightarrow> procs
      | Inr procs' \<Rightarrow> discover_loop rest procs')"

text \<open>\<open>__init__\<close> starts from the empty dictionary and runs the scan.\<close>

definition discover_running_processes :: "scanned list \<Rightarrow> registry" where
  "discover_running_processes table = discover_loop table []"

subsection \<open>Sequences of calls\<close>

text \<open>
  Each call comes with the operating system it meets. A start that raises leaves the
  registry as the method left it and the next call goes on from there; \<open>None\<close> when a
  call never returns.
\<close>

datatype call = Start string | Stop "string option" | Status

fun run_call :: "os \<Rightarrow> call \<Rightarrow> registry \<Rightarrow> registry option" where
  "run_call s (Start n) procs = map_option snd (start_server s n procs)"
| "run_call s (Stop n) procs = map_option snd (stop_server s n procs)"
| "run_call s Status procs = Some (snd (get_status s procs))"

fun run_calls :: "(os \<times> call) list \<Rightarrow> registry \<Rightarrow> registry option" where
  "run_calls [] procs = Some procs"
| "run_calls ((s, c) # cs) procs =
     (case run_call s c procs of None \<Rightarrow> None | Some procs' \<Rightarrow> run_calls cs procs')"

text \<open>The number of entries that are not zombies.\<close>

definition count_active :: "registry \<Rightarrow> nat" where
  "count_active procs = length (filter (\<lambda>(n, info). status info \<noteq> Zombie) procs)"

text \<open>An operating system on which nothing listens and every call succeeds.\<close>

definition quiet_os :: os where
  "quiet_os = \<lparr> connect_ex = (\<lambda>p. Inr 111), returncode = (\<lambda>i. None),
      spawn = (\<lambda>cmd. Inr 1000), is_running = (\<lambda>pid. Inr True),
      ps_status = (\<lambda>pid. Inr ''running''), os_kill = (\<lambda>pid. None),
      shell_kill = (\<lambda>pid. None), terminate = (\<lambda>h. None),
      wait_for5 = (\<lambda>h. Returns), kill = (\<lambda>h. None), wait_end = (\<lambda>h. Returns),
      ps_wait5 = (\<lambda>h. Returns), template_path = ''backend/chat_template.jinja'' \<rparr>"

text \<open>The same system with ports 8001 and 8002 answering.\<close>

definition os_two_busy :: os where
  "os_two_busy = quiet_os \<lparr> connect_ex := (\<lambda>p. if p = 8001 \<or> p = 8002 then Inr 0 else Inr 111) \<rparr>"

text \<open>Inputs used below: scanned processes, registries and operating systems.\<close>

definition engine_proc :: "nat \<Rightarrow> scanned" where
  "engine_proc pid = \<lparr> info_pid = pid, info_name = Some ''VLLM::EngineCore'',
      info_cmdline = Some [''VLLM::EngineCore''], info_ppid = Some 1 \<rparr>"

definition zombie_entry :: "nat \<Rightarrow> string \<times> proc_info" where
  "zombie_entry pid = (zombie_name pid, \<lparr> process = Psutil pid, port = PortNA, status = Zombie \<rparr>)"

definition three_zombies :: registry where
  "three_zombies = discover_running_processes [engine_proc 11, engine_proc 12, engine_proc 13]"

definition started :: "int \<Rightarrow> proc_info" where
  "started p = \<lparr> process = Asyncio 1000, port = PortInt p, status = Starting \<rparr>"

definition abc :: registry where
  "abc = [(''a'', started 8001), (''b'', started 8001), (''c'', started 8001)]"

definition four_starts :: "(os \<times> call) list" where
  "four_starts = [(quiet_os, Start ''a''), (quiet_os, Start ''b''), (quiet_os, Start ''c''),
                  (quiet_os, Start ''d'')]"

definition gpt2_proc :: scanned where
  "gpt2_proc = \<lparr> info_pid = 77, info_name = Some ''python'',
      info_cmdline = Some [''/usr/bin/vllm'', ''serve'', ''gpt2'', ''--port'', ''8005''],
      info_ppid = Some 5 \<rparr>"

definition gpt2_registry :: registry where
  "gpt2_registry = [(''gpt2'', \<lparr> process = Psutil 77, port = PortInt 8005, status = Running \<rparr>)]"

definition os_gone :: os where
  "os_gone = quiet_os \<lparr> is_running := (\<lambda>pid. Inr False) \<rparr>"

definition os_kill_fails :: os where
  "os_kill_fails = quiet_os \<lparr> os_kill := (\<lambda>pid. Some PermissionError),
                               shell_kill := (\<lambda>pid. Some OSError) \<rparr>"

definition os_second :: os where
  "os_second = quiet_os \<lparr> spawn := (\<lambda>cmd. Inr 1001) \<rparr>"

definition ab_listening :: registry where
  "ab_listening =
     [(''a'', \<lparr> process = Asyncio 1000, port = PortInt 8001, status = Running \<rparr>),
      (''b'', \<lparr> process = Asyncio 1001, port = PortInt 8002, status = Running \<rparr>)]"

definition os_terminate_fails :: os where
  "os_terminate_fails = quiet_os \<lparr> terminate := (\<lambda>h. Some ProcessLookupError) \<rparr>"

definition os_signal_fails :: os where
  "os_signal_fails = quiet_os \<lparr> os_kill := (\<lambda>pid. Some PermissionError) \<rparr>"

definition mixed_registry :: registry where
  "mixed_registry =
     [(''a'', \<lparr> process = Asyncio 1000, port = PortInt 8001, status = Starting \<rparr>),
      (''b'', \<lparr> process = Asyncio 1001, port = PortInt 8002, status = Running \<rparr>),
      (''Zombie Process (42)'', \<lparr> process = Psutil 42, port = PortNA, status = Zombie \<rparr>)]"

definition mixed_after :: registry where
  "mixed_after =
     [(''a'', \<lparr> process = Asyncio 1000, port = PortInt 8001, status = Running \<rparr>),
      (''Zombie Process (42)'', \<lparr> process = Psutil 42, port = PortNA, status = Zombie \<rparr>)]"

definition os_mixed :: os where
  "os_mixed = os_two_busy \<lparr> returncode := (\<lambda>i. if i = 1001 then Some 0 else None) \<rparr>"

text \<open>
  The tokens that stand immediately after an occurrence of \<open>tok\<close> in an argument list,
  in their order. This is the positional reading of the specification, stated apart
  from the loop of the source so that the two can be compared.
\<close>

fun followers :: "string \<Rightarrow> string list \<Rightarrow> string list" where
  "followers tok (a # b # rest) = (if a = tok then b # followers tok (b # rest)
                                   else followers tok (b # rest))"
| "followers tok [a] = []"
| "followers tok [] = []"

text \<open>A process whose \<open>serve\<close> has no successor and whose port does not parse.\<close>

definition bare_serve_proc :: scanned where
  "bare_serve_proc = \<lparr> info_pid = 5, info_name = Some ''vllm'',
      info_cmdline = Some [''vllm'', ''--port'', ''80a'', ''serve''], info_ppid = Some 1 \<rparr>"

section \<open>Properties\<close>

subsection \<open>Port allocator\<close>

lemma next_free_port_from_skip:
  "\<forall>q. p \<le> q \<and> q < p + int k \<longrightarrow> is_port_in_use s q \<Longrightarrow>
   next_free_port_from s p = next_free_port_from s (p + int k)"
proof (induction k arbitrary: p)
  case 0
  then show ?case by simp
next
  case (Suc k)
  have here: "is_port_in_use s p" using Suc.prems by simp
  have rest: "\<forall>q. p + 1 \<le> q \<and> q < (p + 1) + int k \<longrightarrow> is_port_in_use s q"
    using Suc.prems by simp
  have "next_free_port_from s p = next_free_port_from s (p + 1)"
    using here by (subst next_free_port_from.simps) simp
  also have "\<dots> = next_free_port_from s ((p + 1) + int k)"
    by (rule Suc.IH [OF rest])
  also have "(p + 1) + int k = p + int (Suc k)" by simp
  finally show ?case .
qed

lemma next_free_port_from_first:
  assumes "b \<le> p" and "\<not> is_port_in_use s p"
    and "\<forall>q. b \<le> q \<and> q < p \<longrightarrow> is_port_in_use s q"
  shows "next_free_port_from s b = Some p"
proof -
  obtain k where k: "p = b + int k"
    using assms(1) by (metis zle_iff_zadd)
  have "next_free_port_from s b = next_free_port_from s (b + int k)"
    using assms(3) k by (intro next_free_port_from_skip) simp
  also have "\<dots> = Some p"
    using assms(2) k by (subst next_free_port_from.simps) simp
  finally show ?thesis .
qed

text \<open>
  C7. The scan starts at the base port and goes up by one; a connect that succeeds
  (error number 0) marks the port as in use, a connect that is refused or fails with
  another error number marks it as free, and the first free port is returned: when
  \<open>p\<close> is free and every port from the base up to \<open>p\<close> is in use, the scan returns \<open>p\<close>.
  With 8001 and 8002 occupied and 8003 free this is 8003.
\<close>

theorem next_free_port_first_free:
  "(connect_ex s q = Inr rc \<longrightarrow> is_port_in_use s q = (rc = 0)) \<and>
   (base_port = 8001) \<and>
   (base_port \<le> p \<and> \<not> is_port_in_use s p \<and>
      (\<forall>q. base_port \<le> q \<and> q < p \<longrightarrow> is_port_in_use s q)
    \<longrightarrow> get_next_free_port s = Some p)"
  using next_free_port_from_first [of base_port p s]
  by (simp add: is_port_in_use_def get_next_free_port_def base_port_def)

theorem next_free_port_first_free_witness:
  "is_port_in_use os_two_busy 8001 \<and> is_port_in_use os_two_busy 8002 \<and>
   \<not> is_port_in_use os_two_busy 8003 \<and> get_next_free_port os_two_busy = Some 8003"
proof -
  have busy: "\<forall>q. base_port \<le> q \<and> q < 8003 \<longrightarrow> is_port_in_use os_two_busy q"
    by (auto simp: is_port_in_use_def os_two_busy_def quiet_os_def base_port_def)
  have free: "\<not> is_port_in_use os_two_busy 8003"
    by (simp add: is_port_in_use_def os_two_busy_def quiet_os_def)
  have "get_next_free_port os_two_busy = Some 8003"
    using next_free_port_first_free [of os_two_busy 8003 0 8003] busy free
    by (simp add: base_port_def)
  moreover have "is_port_in_use os_two_busy 8001 \<and> is_port_in_use os_two_busy 8002"
    by (simp add: is_port_in_use_def os_two_busy_def quiet_os_def)
  ultimately show ?thesis using free by simp
qed

subsection \<open>The size of the registry\<close>

lemma length_dict_del: "length (dict_del r k) \<le> length r"
  by (induction r) (auto simp: le_SucI)

lemma length_dict_set: "length (dict_set r k v) \<le> Suc (length r)"
  by (induction r) auto

lemma start_check_length:
  "start_check s n procs = Inr procs1 \<Longrightarrow> length procs1 \<le> length procs"
  by (auto simp: start_check_def length_dict_del split: option.splits sum.splits)

lemma start_server_length:
  assumes "start_server s n procs = Some (out, procs')"
  shows "length procs' \<le> max 3 (length procs)"
proof (cases "start_check s n procs")
  case (Inl ending)
  then show ?thesis using assms by (simp add: start_server_def)
next
  case (Inr procs1)
  have l1: "length procs1 \<le> length procs" using Inr by (rule start_check_length)
  show ?thesis
  proof (cases "length procs1 \<ge> 3")
    case True
    then show ?thesis using assms Inr l1 by (simp add: start_server_def)
  next
    case False
    have "length (dict_set procs1 n v) \<le> 3" for v
      using False length_dict_set [of procs1 n v] by simp
    then have "length (dict_set procs1 n v) \<le> max 3 (length procs)" for v
      by (simp add: le_max_iff_disj)
    then show ?thesis using assms Inr False
      by (auto simp: start_server_def split: option.splits sum.splits)
  qed
qed

lemma stop_zombie_length:
  "stop_zombie s name procs = (procs', note) \<Longrightarrow> length procs' \<le> length procs"
  by (auto simp: stop_zombie_def length_dict_del split: option.splits)

lemma stop_targets_length:
  "stop_targets s ts procs results = Some (procs', results') \<Longrightarrow> length procs' \<le> length procs"
proof (induction ts arbitrary: procs results)
  case Nil
  then show ?case by simp
next
  case (Cons name rest)
  show ?case
  proof (cases "dict_get procs name")
    case None
    then show ?thesis using Cons by simp
  next
    case (Some info)
    show ?thesis
    proof (cases "str_contains ''Zombie Process'' name \<and> status info = Zombie")
      case True
      obtain p1 nt where z: "stop_zombie s name procs = (p1, nt)" by force
      have "stop_targets s rest p1 (results @ [nt]) = Some (procs', results')"
        using Cons.prems Some True z by simp
      then have "length procs' \<le> length p1" by (rule Cons.IH)
      then show ?thesis using stop_zombie_length [OF z] by simp
    next
      case False
      then obtain r where
        "stop_targets s rest (dict_del procs name) r = Some (procs', results')"
        using Cons.prems Some by (auto split: outcome.splits)
      then have "length procs' \<le> length (dict_del procs name)" by (rule Cons.IH)
      then show ?thesis using length_dict_del [of procs name] by simp
    qed
  qed
qed

lemma stop_server_length:
  "stop_server s n procs = Some (r, procs') \<Longrightarrow> length procs' \<le> length procs"
  by (auto simp: stop_server_def resolve_targets_def split: option.splits sum.splits if_splits
      dest: stop_targets_length)

lemma status_loop_length: "length (fst (status_loop s procs)) = length procs"
  by (induction procs) (auto split: sum.splits prod.splits)

lemma foldl_dict_del_length: "length (foldl dict_del r ks) \<le> length r"
proof (induction ks arbitrary: r)
  case Nil
  then show ?case by simp
next
  case (Cons k ks)
  have "length (foldl dict_del (dict_del r k) ks) \<le> length (dict_del r k)" by (rule Cons.IH)
  then show ?case using length_dict_del [of r k] by simp
qed

lemma get_status_length: "length (snd (get_status s procs)) \<le> length procs"
proof (cases "status_loop s procs")
  case (Pair p1 res)
  have l: "length p1 = length procs" using status_loop_length [of s procs] Pair by simp
  show ?thesis
  proof (cases res)
    case (Inl e)
    then show ?thesis using Pair l by (simp add: get_status_def)
  next
    case (Inr ar)
    then show ?thesis using Pair l foldl_dict_del_length [of p1 "snd ar"]
      by (cases ar) (simp add: get_status_def)
  qed
qed

lemma run_call_length:
  assumes "run_call s c procs = Some procs'"
  shows "length procs' \<le> max 3 (length procs)"
proof (cases c)
  case (Start n)
  then show ?thesis using assms by (auto dest: start_server_length)
next
  case (Stop n)
  then show ?thesis using assms by (auto simp: le_max_iff_disj dest: stop_server_length)
next
  case Status
  then show ?thesis using assms get_status_length [of s procs]
    by (auto simp: le_max_iff_disj)
qed

lemma run_calls_length:
  "run_calls cs procs = Some procs' \<Longrightarrow> length procs' \<le> max 3 (length procs)"
proof (induction cs arbitrary: procs)
  case Nil
  then show ?case by simp
next
  case (Cons sc cs)
  obtain s c where sc: "sc = (s, c)" by (cases sc)
  from Cons.prems sc obtain p1 where
    p1: "run_call s c procs = Some p1" and rest: "run_calls cs p1 = Some procs'"
    by (auto split: option.splits)
  have "length procs' \<le> max 3 (length p1)" using rest by (rule Cons.IH)
  moreover have "length p1 \<le> max 3 (length procs)" using p1 by (rule run_call_length)
  ultimately show ?case by simp
qed

lemma count_active_le: "count_active procs \<le> length procs"
  by (simp add: count_active_def)

lemma count_active_dict_del: "count_active (dict_del r k) \<le> count_active r"
  by (induction r k rule: dict_del.induct) (auto simp: count_active_def)

lemma count_active_foldl_dict_del: "count_active (foldl dict_del r ks) \<le> count_active r"
proof (induction ks arbitrary: r)
  case Nil
  then show ?case by simp
next
  case (Cons k ks)
  have "count_active (foldl dict_del (dict_del r k) ks) \<le> count_active (dict_del r k)"
    by (rule Cons.IH)
  then show ?case using count_active_dict_del [of r k] by simp
qed

lemma start_check_count:
  "start_check s n procs = Inr procs1 \<Longrightarrow> count_active procs1 \<le> count_active procs"
  by (auto simp: start_check_def count_active_dict_del split: option.splits sum.splits)

lemma start_server_count:
  assumes "start_server s n procs = Some (out, procs')"
  shows "count_active procs' \<le> max 3 (count_active procs)"
proof (cases "start_check s n procs")
  case (Inl ending)
  then show ?thesis using assms by (simp add: start_server_def)
next
  case (Inr procs1)
  have c1: "count_active procs1 \<le> count_active procs" using Inr by (rule start_check_count)
  show ?thesis
  proof (cases "length procs1 \<ge> 3")
    case True
    then show ?thesis using assms Inr c1 by (simp add: start_server_def)
  next
    case False
    have "count_active (dict_set procs1 n v) \<le> 3" for v
      using False length_dict_set [of procs1 n v] count_active_le [of "dict_set procs1 n v"]
      by simp
    then have "count_active (dict_set procs1 n v) \<le> max 3 (count_active procs)" for v
      by (simp add: le_max_iff_disj)
    then show ?thesis using assms Inr False c1
      by (auto simp: start_server_def le_max_iff_disj split: option.splits sum.splits)
  qed
qed

lemma stop_zombie_count:
  "stop_zombie s name procs = (procs', nt) \<Longrightarrow> count_active procs' \<le> count_active procs"
  by (auto simp: stop_zombie_def count_active_dict_del split: option.splits)

lemma stop_targets_count:
  "stop_targets s ts procs results = Some (procs', results') \<Longrightarrow>
   count_active procs' \<le> count_active procs"
proof (induction ts arbitrary: procs results)
  case Nil
  then show ?case by simp
next
  case (Cons name rest)
  show ?case
  proof (cases "dict_get procs name")
    case None
    then show ?thesis using Cons by simp
  next
    case (Some info)
    show ?thesis
    proof (cases "str_contains ''Zombie Process'' name \<and> status info = Zombie")
      case True
      obtain p1 nt where z: "stop_zombie s name procs = (p1, nt)" by force
      have "stop_targets s rest p1 (results @ [nt]) = Some (procs', results')"
        using Cons.prems Some True z by simp
      then have "count_active procs' \<le> count_active p1" by (rule Cons.IH)
      then show ?thesis using stop_zombie_count [OF z] by simp
    next
      case False
      then obtain r where
        "stop_targets s rest (dict_del procs name) r = Some (procs', results')"
        using Cons.prems Some by (auto split: outcome.splits)
      then have "count_active procs' \<le> count_active (dict_del procs name)" by (rule Cons.IH)
      then show ?thesis using count_active_dict_del [of procs name] by simp
    qed
  qed
qed

lemma stop_server_count:
  "stop_server s n procs = Some (r, procs') \<Longrightarrow> count_active procs' \<le> count_active procs"
  by (auto simp: stop_server_def split: option.splits sum.splits dest: stop_targets_count)

lemma probe_entry_zombie: "status (probe_entry s info) = Zombie \<longleftrightarrow> status info = Zombie"
  by (simp add: probe_entry_def split: port_val.splits)

lemma status_loop_count: "count_active (fst (status_loop s procs)) = count_active procs"
proof (induction procs)
  case Nil
  show ?case by simp
next
  case (Cons e rest)
  obtain name info where e: "e = (name, info)" by (cases e)
  obtain r1 res where sl: "status_loop s rest = (r1, res)" by (cases "status_loop s rest")
  have ih: "count_active r1 = count_active rest" using Cons.IH sl by simp
  show ?case using e sl ih
    by (auto simp: count_active_def probe_entry_zombie split: sum.splits)
qed

lemma get_status_count: "count_active (snd (get_status s procs)) \<le> count_active procs"
proof (cases "status_loop s procs")
  case (Pair p1 res)
  have l: "count_active p1 = count_active procs" using status_loop_count [of s procs] Pair by simp
  show ?thesis
  proof (cases res)
    case (Inl e)
    then show ?thesis using Pair l by (simp add: get_status_def)
  next
    case (Inr ar)
    then show ?thesis using Pair l count_active_foldl_dict_del [of p1 "snd ar"]
      by (cases ar) (simp add: get_status_def)
  qed
qed

lemma run_call_count:
  assumes "run_call s c procs = Some procs'"
  shows "count_active procs' \<le> max 3 (count_active procs)"
proof (cases c)
  case (Start n)
  then show ?thesis using assms by (auto dest: start_server_count)
next
  case (Stop n)
  then show ?thesis using assms by (auto simp: le_max_iff_disj dest: stop_server_count)
next
  case Status
  then show ?thesis using assms get_status_count [of s procs]
    by (auto simp: le_max_iff_disj)
qed

lemma run_calls_count:
  "run_calls cs procs = Some procs' \<Longrightarrow> count_active procs' \<le> max 3 (count_active procs)"
proof (induction cs arbitrary: procs)
  case Nil
  then show ?case by simp
next
  case (Cons sc cs)
  obtain s c where sc: "sc = (s, c)" by (cases sc)
  from Cons.prems sc obtain p1 where
    p1: "run_call s c procs = Some p1" and rest: "run_calls cs p1 = Some procs'"
    by (auto split: option.splits)
  have "count_active procs' \<le> max 3 (count_active p1)" using rest by (rule Cons.IH)
  moreover have "count_active p1 \<le> max 3 (count_active procs)" using p1 by (rule run_call_count)
  ultimately show ?case by simp
qed

lemma start_unregistered_full:
  "dict_get procs n = None \<Longrightarrow> 3 \<le> length procs \<Longrightarrow>
   start_server s n procs = Some (Inr (error_response MsgMaxLimit), procs)"
  by (simp add: start_server_def start_check_def)

subsection \<open>Evaluation on the inputs\<close>

lemma zombie_names:
  "zombie_name 11 = ''Zombie Process (11)''" "zombie_name 12 = ''Zombie Process (12)''"
  "zombie_name 13 = ''Zombie Process (13)''" "zombie_name 42 = ''Zombie Process (42)''"
  by (simp_all add: zombie_name_def str_nat.simps digit_char_def)

lemma discover_engine:
  "discover_one (engine_proc pid) procs = Inr (dict_set procs (zombie_name pid)
      \<lparr> process = Psutil pid, port = PortNA, status = Zombie \<rparr>)"
  by (simp add: discover_one_def serve_match_def engine_match_def cmd_str_of_def engine_proc_def)

lemma three_zombies_eval:
  "three_zombies = [zombie_entry 11, zombie_entry 12, zombie_entry 13]"
  by (simp add: three_zombies_def discover_running_processes_def discover_engine
      zombie_entry_def zombie_names)

lemma quiet_port: "get_next_free_port quiet_os = Some 8001"
  by (simp add: get_next_free_port_def base_port_def next_free_port_from.simps
      is_port_in_use_def quiet_os_def)

lemma start_server_fresh:
  assumes "dict_get procs n = None" and "length procs < 3"
    and "get_next_free_port s = Some p" and "spawn s (build_cmd s n p) = Inr c"
  shows "start_server s n procs =
     Some (Inr \<lparr> resp_status = ''success'', resp_message = MsgStarting n p, resp_port = Some p \<rparr>,
           dict_set procs n \<lparr> process = Asyncio c, port = PortInt p, status = Starting \<rparr>)"
  using assms by (simp add: start_server_def start_check_def)

lemma quiet_spawn: "spawn quiet_os cmd = Inr 1000"
  by (simp add: quiet_os_def)

lemma four_starts_run: "run_calls four_starts [] = Some abc"
  by (simp add: four_starts_def abc_def started_def start_server_fresh quiet_port quiet_spawn
      start_unregistered_full)

lemma discover_gpt2: "discover_running_processes [gpt2_proc] = gpt2_registry"
  by (simp add: discover_running_processes_def discover_one_def serve_match_def
      cmd_str_of_def gpt2_proc_def gpt2_registry_def display_name_def py_int_def strip_def
      is_space_def is_digit_def nat_of_digits_def digit_val_def max_str_digits_def)

subsection \<open>Capacity\<close>

text \<open>
  C1, as amended. The ceiling of three counts every entry of the registry, zombies
  included. A start of a name that is not registered, made while the registry holds
  three entries or more of any status, returns the error \<open>MsgMaxLimit\<close> and leaves the
  registry as it is. Whatever sequence of start, stop and status calls runs from a
  registry, the number of entries that are not zombies never exceeds three or the
  number of such entries it began with, so it stays at three or below from any
  registry that holds at most three of them; and the number of all entries never
  exceeds three or the number it began with.
\<close>

theorem capacity_ceiling:
  "(dict_get procs n = None \<and> 3 \<le> length procs \<longrightarrow>
      start_server s n procs = Some (Inr (error_response MsgMaxLimit), procs)) \<and>
   (run_calls cs procs0 = Some procs' \<longrightarrow>
      count_active procs' \<le> max 3 (count_active procs0) \<and>
      length procs' \<le> max 3 (length procs0))"
  using start_unregistered_full [of procs n s] run_calls_length [of cs procs0 procs']
    run_calls_count [of cs procs0 procs']
  by auto

theorem capacity_ceiling_witness:
  "dict_get abc ''d'' = None \<and> 3 \<le> length abc \<and>
   start_server quiet_os ''d'' abc = Some (Inr (error_response MsgMaxLimit), abc) \<and>
   run_calls four_starts [] = Some abc \<and> count_active abc \<le> 3 \<and> length abc \<le> 3"
proof -
  have a: "dict_get abc ''d'' = None \<and> 3 \<le> length abc" by (simp add: abc_def)
  have b: "run_calls four_starts [] = Some abc" by (rule four_starts_run)
  have c: "count_active ([] :: registry) = 0" by (simp add: count_active_def)
  show ?thesis
    using capacity_ceiling [of abc "''d''" quiet_os four_starts "[]" abc] a b c by simp
qed

text \<open>
  C1 as stated fails where it says that zombies do not count: three zombie workers
  found by the scan fill the registry, and a start is refused by the ceiling although
  no entry is active.
\<close>

theorem capacity_counts_zombies:
  "count_active three_zombies = 0 \<and>
   start_server quiet_os ''gpt2'' three_zombies
     = Some (Inr (error_response MsgMaxLimit), three_zombies)"
proof -
  have "count_active three_zombies = 0"
    by (simp add: three_zombies_eval zombie_entry_def count_active_def)
  moreover have "dict_get three_zombies ''gpt2'' = None"
    by (simp add: three_zombies_eval zombie_entry_def zombie_names)
  moreover have "3 \<le> length three_zombies"
    by (simp add: three_zombies_eval)
  ultimately show ?thesis by (simp add: start_unregistered_full)
qed

subsection \<open>Starting a registered name\<close>

text \<open>
  C2 does not hold for an entry found by the scan. \<open>start_server\<close> reads \<open>.returncode\<close> of
  the handle whatever its class; the handle of a scanned process has no such
  attribute, so the call ends with an \<open>AttributeError\<close> instead of the error result that
  the model is already running. The registry is the one the scan builds from a
  process \<open>vllm serve gpt2 --port 8005\<close>; the operating system is any.
\<close>

theorem start_scanned_name_raises:
  "start_server s ''gpt2'' (discover_running_processes [gpt2_proc])
     = Some (Inl AttributeError, discover_running_processes [gpt2_proc])"
  by (simp add: discover_gpt2 gpt2_registry_def start_server_def start_check_def
      handle_returncode_def)

subsection \<open>Status of a scanned process that is gone\<close>

text \<open>
  C3 does not hold for an entry found by the scan whose process is gone. When
  \<open>is_running()\<close> answers false the branch is \<open>pass\<close>, \<open>is_dead\<close> stays false, and the entry
  is listed as running and kept in the registry.
\<close>

theorem status_keeps_gone_process:
  "is_running os_gone 77 = Inr False \<and>
   get_status os_gone gpt2_registry
     = (Inr \<lparr> running = True, models = [(''gpt2'', PortInt 8005, Running)] \<rparr>, gpt2_registry)"
  by (simp add: gpt2_registry_def os_gone_def quiet_os_def get_status_def is_dead_def
      probe_entry_def)

subsection \<open>Stopping a zombie when both kills fail\<close>

text \<open>
  C6 does not hold for a zombie entry. When \<open>os.kill\<close> raises an exception other than
  \<open>ProcessLookupError\<close> and the kill through the shell raises as well, the outer handler
  notes the error and goes on: the entry stays in the registry.
\<close>

theorem stop_zombie_keeps_entry:
  "stop_server os_kill_fails (Some ''Zombie Process (42)'')
       (discover_running_processes [engine_proc 42])
   = Some (\<lparr> resp_status = ''success'',
             resp_message = MsgJoined [ErrorKillingZombie ''Zombie Process (42)'' OSError],
             resp_port = None \<rparr>,
           discover_running_processes [engine_proc 42])"
  by (simp add: discover_running_processes_def discover_engine zombie_names stop_server_def
      resolve_targets_def stop_zombie_def kill_zombie_def is_digit_def os_kill_fails_def quiet_os_def)

subsection \<open>The port of a started entry\<close>

lemma next_free_port_from_sound:
  assumes "next_free_port_from s b = Some p"
  shows "b \<le> p \<and> \<not> is_port_in_use s p \<and> (\<forall>q. b \<le> q \<and> q < p \<longrightarrow> is_port_in_use s q)"
  using assms
proof (induction s b p rule: next_free_port_from.raw_induct)
  case (1 f s b p)
  show ?case
  proof (cases "is_port_in_use s b")
    case True
    then have "f s (b + 1) = Some p" using "1"(2) by simp
    moreover have "next_free_port_from s (b + 1) = Some p"
      using "1"(3) True by (subst (asm) next_free_port_from.simps) simp
    ultimately have ih: "b + 1 \<le> p \<and> \<not> is_port_in_use s p
        \<and> (\<forall>q. b + 1 \<le> q \<and> q < p \<longrightarrow> is_port_in_use s q)"
      by (rule "1"(1))
    have "is_port_in_use s q" if "b \<le> q" "q < p" for q
    proof (cases "q = b")
      case True
      then show ?thesis using \<open>is_port_in_use s b\<close> by simp
    next
      case False
      then show ?thesis using ih that by simp
    qed
    then show ?thesis using ih by simp
  next
    case False
    then have "b = p" using "1"(2) by simp
    then show ?thesis using False by auto
  qed
qed (rule assms)

lemma dict_get_dict_set_same: "dict_get (dict_set r k v) k = Some v"
  by (induction r) auto

lemma dict_get_dict_del_same: "dict_get (dict_del r k) k = None"
  by (induction r) auto

lemma start_server_success:
  assumes "start_server s n procs = Some (Inr r, procs')" and "resp_status r = ''success''"
  shows "\<exists>p c. get_next_free_port s = Some p \<and> resp_port r = Some p \<and>
     resp_message r = MsgStarting n p \<and>
     dict_get procs' n = Some \<lparr> process = Asyncio c, port = PortInt p, status = Starting \<rparr>"
  using assms
  by (auto simp: start_server_def start_check_def error_response_def dict_get_dict_set_same
      split: option.splits sum.splits if_splits)

lemma two_busy_port: "get_next_free_port os_two_busy = Some 8003"
  by (simp add: get_next_free_port_def base_port_def next_free_port_from.simps
      is_port_in_use_def os_two_busy_def quiet_os_def)

lemma start_c_listening:
  "start_server os_two_busy ''c'' ab_listening =
     Some (Inr \<lparr> resp_status = ''success'', resp_message = MsgStarting ''c'' 8003,
                 resp_port = Some 8003 \<rparr>,
           ab_listening @ [(''c'', started 8003)])"
proof -
  have "dict_get ab_listening ''c'' = None" and "length ab_listening < 3"
    by (simp_all add: ab_listening_def)
  moreover have "spawn os_two_busy (build_cmd os_two_busy ''c'' 8003) = Inr 1000"
    by (simp add: os_two_busy_def quiet_os_def)
  ultimately show ?thesis
    using two_busy_port
    by (simp add: start_server_fresh [where p = 8003 and c = 1000] ab_listening_def started_def)
qed

text \<open>
  C8, as amended. A start does not look at the ports held by the registry: the port
  it assigns is the first one from 8001 up on which a connect does not succeed at the
  moment of the call. So the new entry's port differs from the port of every other
  entry whose port answers at that moment; an entry that is not listening yet gives
  no such protection.
\<close>

theorem start_port_first_unanswered:
  "start_server s n procs = Some (Inr r, procs') \<and> resp_status r = ''success'' \<longrightarrow>
     (\<exists>p c. resp_port r = Some p \<and>
        dict_get procs' n = Some \<lparr> process = Asyncio c, port = PortInt p, status = Starting \<rparr> \<and>
        base_port \<le> p \<and> \<not> is_port_in_use s p \<and>
        (\<forall>q. base_port \<le> q \<and> q < p \<longrightarrow> is_port_in_use s q) \<and>
        (\<forall>m info q. m \<noteq> n \<and> dict_get procs' m = Some info \<and> port info = PortInt q
            \<and> is_port_in_use s q \<longrightarrow> q \<noteq> p))"
proof
  assume a: "start_server s n procs = Some (Inr r, procs') \<and> resp_status r = ''success''"
  then obtain p c where p: "get_next_free_port s = Some p" "resp_port r = Some p"
    "dict_get procs' n = Some \<lparr> process = Asyncio c, port = PortInt p, status = Starting \<rparr>"
    using start_server_success [of s n procs r procs'] by blast
  have "base_port \<le> p \<and> \<not> is_port_in_use s p
      \<and> (\<forall>q. base_port \<le> q \<and> q < p \<longrightarrow> is_port_in_use s q)"
    using p(1) next_free_port_from_sound [of s base_port p] by (simp add: get_next_free_port_def)
  then show "\<exists>p c. resp_port r = Some p \<and>
        dict_get procs' n = Some \<lparr> process = Asyncio c, port = PortInt p, status = Starting \<rparr> \<and>
        base_port \<le> p \<and> \<not> is_port_in_use s p \<and>
        (\<forall>q. base_port \<le> q \<and> q < p \<longrightarrow> is_port_in_use s q) \<and>
        (\<forall>m info q. m \<noteq> n \<and> dict_get procs' m = Some info \<and> port info = PortInt q
            \<and> is_port_in_use s q \<longrightarrow> q \<noteq> p)"
    using p(2,3) by blast
qed

theorem start_port_first_unanswered_witness:
  "start_server os_two_busy ''c'' ab_listening =
     Some (Inr \<lparr> resp_status = ''success'', resp_message = MsgStarting ''c'' 8003,
                 resp_port = Some 8003 \<rparr>,
           ab_listening @ [(''c'', started 8003)]) \<and>
   dict_get (ab_listening @ [(''c'', started 8003)]) ''c'' = Some (started 8003) \<and>
   \<not> is_port_in_use os_two_busy 8003 \<and>
   is_port_in_use os_two_busy 8001 \<and> is_port_in_use os_two_busy 8002"
proof -
  have "is_port_in_use os_two_busy 8001 \<and> is_port_in_use os_two_busy 8002"
    by (simp add: is_port_in_use_def os_two_busy_def quiet_os_def)
  moreover have "dict_get (ab_listening @ [(''c'', started 8003)]) ''c'' = Some (started 8003)"
    by (simp add: ab_listening_def)
  ultimately show ?thesis
    using start_port_first_unanswered [of os_two_busy "''c''" ab_listening
        "\<lparr> resp_status = ''success'', resp_message = MsgStarting ''c'' 8003,
           resp_port = Some 8003 \<rparr>" "ab_listening @ [(''c'', started 8003)]"]
      start_c_listening
    by auto
qed

text \<open>
  C8 as stated fails: on a system where nothing listens yet, two starts in a row give
  both entries port 8001, the first being still in the starting state.
\<close>

theorem two_starts_share_port:
  "run_calls [(quiet_os, Start ''a''), (os_second, Start ''b'')] [] =
     Some [(''a'', \<lparr> process = Asyncio 1000, port = PortInt 8001, status = Starting \<rparr>),
           (''b'', \<lparr> process = Asyncio 1001, port = PortInt 8001, status = Starting \<rparr>)]"
proof -
  have "get_next_free_port os_second = Some 8001"
    by (simp add: get_next_free_port_def base_port_def next_free_port_from.simps
        is_port_in_use_def os_second_def quiet_os_def)
  moreover have "spawn os_second cmd = Inr 1001" for cmd
    by (simp add: os_second_def quiet_os_def)
  ultimately show ?thesis
    by (simp add: start_server_fresh quiet_port quiet_spawn)
qed

subsection \<open>Starting a name held by a subprocess of the manager\<close>

text \<open>
  For an entry whose handle is a subprocess of the manager the start behaves as
  described: an entry without return code gives the error that the model is already
  running, an entry with a return code is deleted and the start goes on. The third
  lemma is the general form of the failure for a scanned handle.
\<close>

lemma start_live_entry:
  assumes "dict_get procs n = Some info" and "process info = Asyncio i"
    and "returncode s i = None"
  shows "start_server s n procs =
     Some (Inr (error_response (MsgAlreadyRunning n (port info))), procs)"
  using assms by (simp add: start_server_def start_check_def handle_returncode_def)

lemma start_exited_entry:
  assumes "dict_get procs n = Some info" and "process info = Asyncio i"
    and "returncode s i = Some rc" and "length (dict_del procs n) < 3"
    and "get_next_free_port s = Some p" and "spawn s (build_cmd s n p) = Inr c"
  shows "start_server s n procs =
     Some (Inr \<lparr> resp_status = ''success'', resp_message = MsgStarting n p, resp_port = Some p \<rparr>,
           dict_set (dict_del procs n) n
             \<lparr> process = Asyncio c, port = PortInt p, status = Starting \<rparr>)"
  using assms by (simp add: start_server_def start_check_def handle_returncode_def)

lemma start_scanned_entry:
  assumes "dict_get procs n = Some info" and "process info = Psutil pid"
  shows "start_server s n procs = Some (Inl AttributeError, procs)"
  using assms by (simp add: start_server_def start_check_def handle_returncode_def)

subsection \<open>The result of a stop\<close>

lemma terminate_sequence_no_hang:
  "wait_for5 s h \<noteq> Hangs \<Longrightarrow> wait_end s h \<noteq> Hangs \<Longrightarrow> terminate_sequence s h \<noteq> Hangs"
  by (auto simp: terminate_sequence_def has_terminate_def split: option.splits outcome.splits)

lemma stop_targets_returns:
  assumes "\<forall>h. wait_for5 s h \<noteq> Hangs \<and> wait_end s h \<noteq> Hangs"
  shows "stop_targets s ts procs results \<noteq> None"
proof (induction ts arbitrary: procs results)
  case Nil
  show ?case by simp
next
  case (Cons name rest)
  show ?case
  proof (cases "dict_get procs name")
    case None
    then show ?thesis using Cons.IH by simp
  next
    case (Some info)
    have "terminate_sequence s (process info) \<noteq> Hangs"
      using assms by (simp add: terminate_sequence_no_hang)
    then show ?thesis using Some Cons.IH
      by (simp split: prod.splits outcome.splits)
  qed
qed

lemma resolve_targets_error:
  "resolve_targets model_name procs = Inl r \<Longrightarrow>
   \<exists>n. model_name = Some n \<and> n \<noteq> [] \<and> dict_get procs n = None"
  by (auto simp: resolve_targets_def split: option.splits if_splits)

lemma stop_a_terminate_fails:
  "stop_server os_terminate_fails (Some ''a'') abc =
     Some (\<lparr> resp_status = ''success'',
              resp_message = MsgJoined [ErrorStopping ''a'' ProcessLookupError],
              resp_port = None \<rparr>,
           [(''b'', started 8001), (''c'', started 8001)])"
  by (simp add: stop_server_def resolve_targets_def abc_def started_def terminate_sequence_def
      has_terminate_def
      os_terminate_fails_def quiet_os_def)

text \<open>
  C10. When the target of a stop resolves (no name, an empty name, or a registered
  name), the dictionary that \<open>stop_server\<close> returns has the status \<open>success\<close> and its
  message is the joined list of per-target notes, whatever the kills and terminations
  did: a failure shows only as a note of that list. The call does return whenever no
  wait blocks for ever.
\<close>

theorem stop_result_success:
  "(model_name = None \<or> model_name = Some [] \<or>
      (\<exists>n. model_name = Some n \<and> dict_get procs n \<noteq> None)) \<longrightarrow>
   (\<forall>r procs'. stop_server s model_name procs = Some (r, procs') \<longrightarrow>
       resp_status r = ''success'' \<and> (\<exists>notes. resp_message r = MsgJoined notes)) \<and>
   ((\<forall>h. wait_for5 s h \<noteq> Hangs \<and> wait_end s h \<noteq> Hangs) \<longrightarrow>
       stop_server s model_name procs \<noteq> None)"
proof
  assume res: "model_name = None \<or> model_name = Some [] \<or>
      (\<exists>n. model_name = Some n \<and> dict_get procs n \<noteq> None)"
  obtain targets where t: "resolve_targets model_name procs = Inr targets"
    using res resolve_targets_error [of model_name procs]
    by (cases "resolve_targets model_name procs") auto
  have "resp_status r = ''success'' \<and> (\<exists>notes. resp_message r = MsgJoined notes)"
    if "stop_server s model_name procs = Some (r, procs')" for r procs'
    using that t by (auto simp: stop_server_def split: option.splits)
  moreover have "stop_server s model_name procs \<noteq> None"
    if nh: "\<forall>h. wait_for5 s h \<noteq> Hangs \<and> wait_end s h \<noteq> Hangs"
  proof -
    have "stop_targets s targets procs [] \<noteq> None" using nh by (rule stop_targets_returns)
    then show ?thesis using t by (auto simp: stop_server_def)
  qed
  ultimately show "(\<forall>r procs'. stop_server s model_name procs = Some (r, procs') \<longrightarrow>
       resp_status r = ''success'' \<and> (\<exists>notes. resp_message r = MsgJoined notes)) \<and>
   ((\<forall>h. wait_for5 s h \<noteq> Hangs \<and> wait_end s h \<noteq> Hangs) \<longrightarrow>
       stop_server s model_name procs \<noteq> None)"
    by blast
qed

theorem stop_result_success_witness:
  "dict_get abc ''a'' \<noteq> None \<and>
   stop_server os_terminate_fails (Some ''a'') abc =
     Some (\<lparr> resp_status = ''success'',
              resp_message = MsgJoined [ErrorStopping ''a'' ProcessLookupError],
              resp_port = None \<rparr>,
           [(''b'', started 8001), (''c'', started 8001)]) \<and>
   stop_server os_terminate_fails (Some ''a'') abc \<noteq> None"
proof -
  have a: "dict_get abc ''a'' \<noteq> None" by (simp add: abc_def)
  have b: "\<forall>h. wait_for5 os_terminate_fails h \<noteq> Hangs \<and> wait_end os_terminate_fails h \<noteq> Hangs"
    by (simp add: os_terminate_fails_def quiet_os_def)
  show ?thesis
    using stop_result_success [of "Some ''a''" abc os_terminate_fails] a b
      stop_a_terminate_fails
    by simp
qed

subsection \<open>Names of zombie entries\<close>

lemma lt10_cases:
  "(d::nat) < 10 \<Longrightarrow> d = 0 \<or> d = 1 \<or> d = 2 \<or> d = 3 \<or> d = 4 \<or> d = 5 \<or> d = 6 \<or> d = 7 \<or> d = 8 \<or> d = 9"
  by arith

lemma digit_char_is_digit: "d < 10 \<Longrightarrow> is_digit (digit_char d)"
  using lt10_cases [of d] by (auto simp: digit_char_def is_digit_def)

lemma digit_val_digit_char: "d < 10 \<Longrightarrow> digit_val (digit_char d) = d"
  using lt10_cases [of d] by (auto simp: digit_char_def digit_val_def)

lemma str_nat_digits: "c \<in> set (str_nat n) \<Longrightarrow> is_digit c"
proof (induction n arbitrary: c rule: str_nat.induct)
  case (1 n)
  show ?case
  proof (cases "n < 10")
    case True
    then show ?thesis using "1.prems" by (simp add: str_nat.simps [of n] digit_char_is_digit)
  next
    case False
    then show ?thesis using "1.prems" "1.IH"
      by (auto simp: str_nat.simps [of n] digit_char_is_digit)
  qed
qed

lemma str_nat_not_empty: "str_nat n \<noteq> []"
  by (simp add: str_nat.simps [of n])

lemma nat_of_digits_snoc: "nat_of_digits (ds @ [c]) = 10 * nat_of_digits ds + digit_val c"
  by (simp add: nat_of_digits_def)

lemma nat_of_digits_str_nat: "nat_of_digits (str_nat n) = n"
proof (induction n rule: str_nat.induct)
  case (1 n)
  show ?case
  proof (cases "n < 10")
    case True
    then show ?thesis
      by (simp add: str_nat.simps [of n] nat_of_digits_def digit_val_digit_char)
  next
    case False
    then have "nat_of_digits (str_nat (n div 10)) = n div 10" by (rule "1.IH")
    then show ?thesis using False
      by (simp add: str_nat.simps [of n] nat_of_digits_snoc digit_val_digit_char)
  qed
qed

lemma takeWhile_str_nat: "takeWhile is_digit (str_nat n @ '')'') = str_nat n"
proof -
  have "takeWhile is_digit (str_nat n @ '')'') = str_nat n @ takeWhile is_digit '')''"
    by (rule takeWhile_append2) (rule str_nat_digits)
  then show ?thesis by (simp add: is_digit_def)
qed

lemma dropWhile_str_nat: "dropWhile is_digit (str_nat n @ '')'') = '')''"
proof -
  have "dropWhile is_digit (str_nat n @ '')'') = dropWhile is_digit '')''"
    by (rule dropWhile_append2) (rule str_nat_digits)
  then show ?thesis by (simp add: is_digit_def)
qed

lemma find_pid_zombie_name: "find_pid (zombie_name pid) = Some (str_nat pid)"
  by (simp add: zombie_name_def takeWhile_str_nat dropWhile_str_nat str_nat_not_empty)

lemma zombie_name_contains: "str_contains ''Zombie Process'' (zombie_name pid)"
  by (simp add: zombie_name_def)

lemma kill_zombie_zombie_name:
  "kill_zombie s (zombie_name pid) =
     (case os_kill s pid of
        None \<Rightarrow> None
      | Some e \<Rightarrow> if e = ProcessLookupError then None else shell_kill s pid)"
  by (simp add: kill_zombie_def find_pid_zombie_name nat_of_digits_str_nat
      split: option.splits)

subsection \<open>Zombie entries: their name and their stop\<close>

lemma set_dict_set: "set (dict_set r k v) \<subseteq> insert (k, v) (set r)"
  by (induction r k v rule: dict_set.induct) auto

lemma dict_get_None_iff: "dict_get r k = None \<longleftrightarrow> k \<notin> fst ` set r"
  by (induction r k rule: dict_get.induct) auto

lemma discover_one_zombie_named:
  assumes inv: "\<forall>n info. (n, info) \<in> set procs \<and> status info = Zombie \<longrightarrow>
            (\<exists>pid. n = zombie_name pid \<and> process info = Psutil pid)"
    and step: "discover_one pr procs = Inr procs'"
  shows "\<forall>n info. (n, info) \<in> set procs' \<and> status info = Zombie \<longrightarrow>
            (\<exists>pid. n = zombie_name pid \<and> process info = Psutil pid)"
proof (intro allI impI)
  fix n info
  assume a: "(n, info) \<in> set procs' \<and> status info = Zombie"
  consider (same) "procs' = procs"
    | (serve) m p where "procs' = dict_set procs (display_name m (info_pid pr))
          \<lparr> process = Psutil (info_pid pr), port = PortInt p, status = Running \<rparr>"
    | (zombie) "procs' = dict_set procs (zombie_name (info_pid pr))
          \<lparr> process = Psutil (info_pid pr), port = PortNA, status = Zombie \<rparr>"
    using step
    by (auto simp: discover_one_def split: sum.splits option.splits if_splits bool.splits)
  then show "\<exists>pid. n = zombie_name pid \<and> process info = Psutil pid"
  proof cases
    case same
    then show ?thesis using inv a by blast
  next
    case serve
    then have "(n, info) \<in> set procs" using a set_dict_set by fastforce
    then show ?thesis using inv a by blast
  next
    case zombie
    then have "(n, info) \<in> set procs \<or>
        (n, info) = (zombie_name (info_pid pr),
          \<lparr> process = Psutil (info_pid pr), port = PortNA, status = Zombie \<rparr>)"
      using a set_dict_set by fastforce
    then show ?thesis using inv a by auto
  qed
qed

lemma discover_loop_zombie_named:
  "\<forall>n info. (n, info) \<in> set procs \<and> status info = Zombie \<longrightarrow>
            (\<exists>pid. n = zombie_name pid \<and> process info = Psutil pid) \<Longrightarrow>
   \<forall>n info. (n, info) \<in> set (discover_loop table procs) \<and> status info = Zombie \<longrightarrow>
            (\<exists>pid. n = zombie_name pid \<and> process info = Psutil pid)"
proof (induction table arbitrary: procs)
  case Nil
  then show ?case by simp
next
  case (Cons pr rest)
  show ?case
  proof (cases "discover_one pr procs")
    case (Inl e)
    then show ?thesis using Cons.prems by simp
  next
    case (Inr procs1)
    have "\<forall>n info. (n, info) \<in> set procs1 \<and> status info = Zombie \<longrightarrow>
            (\<exists>pid. n = zombie_name pid \<and> process info = Psutil pid)"
      using Cons.prems Inr by (rule discover_one_zombie_named)
    then show ?thesis using Cons.IH [of procs1] Inr by simp
  qed
qed

lemma status_loop_active_names:
  "status_loop s procs = (p', Inr (active, remove)) \<Longrightarrow> (n, pv, st) \<in> set active \<Longrightarrow>
   n \<in> fst ` set procs"
proof (induction procs arbitrary: p' active remove)
  case Nil
  then show ?case by simp
next
  case (Cons e rest)
  obtain name info where e: "e = (name, info)" by (cases e)
  obtain r1 res where sl: "status_loop s rest = (r1, res)" by (cases "status_loop s rest")
  from Cons.prems(1) e sl obtain a1 rm1 where res: "res = Inr (a1, rm1)"
    and act: "set active \<subseteq> insert (name, port info, status (probe_entry s info)) (set a1)"
    by (auto split: sum.splits if_splits)
  from act Cons.prems(2) consider "n = name" | "(n, pv, st) \<in> set a1" by auto
  then show ?case
  proof cases
    case 1
    then show ?thesis using e by simp
  next
    case 2
    then have "n \<in> fst ` set rest" using sl res Cons.IH by blast
    then show ?thesis by auto
  qed
qed

lemma get_status_names:
  assumes "get_status s procs = (Inr out, p')" and "(n, pv, st) \<in> set (models out)"
  shows "n \<in> fst ` set procs"
proof -
  obtain p1 active remove where sl: "status_loop s procs = (p1, Inr (active, remove))"
    and out: "models out = active"
    using assms(1) by (auto simp: get_status_def split: prod.splits sum.splits)
  show ?thesis using status_loop_active_names [OF sl] assms(2) out by simp
qed

lemma stop_zombie_entry:
  assumes "dict_get procs (zombie_name pid) = Some info" and "status info = Zombie"
    and "kill_zombie s (zombie_name pid) = None"
  shows "stop_server s (Some (zombie_name pid)) procs =
     Some (\<lparr> resp_status = ''success'',
              resp_message = MsgJoined [KilledZombie (zombie_name pid)], resp_port = None \<rparr>,
           dict_del procs (zombie_name pid))"
proof -
  have ne: "zombie_name pid \<noteq> []" by (simp add: zombie_name_def)
  have "resolve_targets (Some (zombie_name pid)) procs = Inr [zombie_name pid]"
    using assms(1) ne by (simp add: resolve_targets_def)
  moreover have "stop_targets s [zombie_name pid] procs [] =
      Some (dict_del procs (zombie_name pid), [KilledZombie (zombie_name pid)])"
    using assms by (simp add: zombie_name_contains stop_zombie_def)
  ultimately show ?thesis by (simp add: stop_server_def)
qed


lemma discover_engine_42:
  "discover_running_processes [engine_proc 42] =
     [(''Zombie Process (42)'', \<lparr> process = Psutil 42, port = PortNA, status = Zombie \<rparr>)]"
  by (simp add: discover_running_processes_def discover_engine zombie_names)

text \<open>
  C5, as amended. Every zombie entry that the scan creates has the name
  \<open>Zombie Process (<PID>)\<close>, the decimal process number in parentheses, and holds the
  scanned handle of that process. A stop on that exact name returns and removes the
  entry, so that no later status result lists it, when \<open>os.kill\<close> delivers the signal,
  when it raises \<open>ProcessLookupError\<close>, and when it raises anything else and the kill
  through the shell runs. The case in which the shell call raises as well is left out
  here; it is the subject of C6.
\<close>

theorem zombie_entry_name_and_stop:
  "(\<forall>n info. (n, info) \<in> set (discover_running_processes table) \<and> status info = Zombie \<longrightarrow>
      (\<exists>pid. n = ''Zombie Process ('' @ str_nat pid @ '')'' \<and> process info = Psutil pid)) \<and>
   (dict_get procs (''Zombie Process ('' @ str_nat k @ '')'') = Some entry \<and>
    status entry = Zombie \<and>
    (os_kill s k = None \<or> os_kill s k = Some ProcessLookupError \<or> shell_kill s k = None) \<longrightarrow>
      (\<exists>r procs'.
         stop_server s (Some (''Zombie Process ('' @ str_nat k @ '')'')) procs = Some (r, procs') \<and>
         resp_status r = ''success'' \<and>
         dict_get procs' (''Zombie Process ('' @ str_nat k @ '')'') = None \<and>
         (\<forall>s' out procs'' pv st. get_status s' procs' = (Inr out, procs'') \<longrightarrow>
            (''Zombie Process ('' @ str_nat k @ '')'', pv, st) \<notin> set (models out))))"
proof
  have "\<forall>n info. (n, info) \<in> set (discover_loop table []) \<and> status info = Zombie \<longrightarrow>
      (\<exists>pid. n = zombie_name pid \<and> process info = Psutil pid)"
    by (rule discover_loop_zombie_named) simp
  then show "\<forall>n info. (n, info) \<in> set (discover_running_processes table) \<and> status info = Zombie \<longrightarrow>
      (\<exists>pid. n = ''Zombie Process ('' @ str_nat pid @ '')'' \<and> process info = Psutil pid)"
    by (simp add: discover_running_processes_def zombie_name_def)
next
  show "dict_get procs (''Zombie Process ('' @ str_nat k @ '')'') = Some entry \<and>
    status entry = Zombie \<and>
    (os_kill s k = None \<or> os_kill s k = Some ProcessLookupError \<or> shell_kill s k = None) \<longrightarrow>
      (\<exists>r procs'.
         stop_server s (Some (''Zombie Process ('' @ str_nat k @ '')'')) procs = Some (r, procs') \<and>
         resp_status r = ''success'' \<and>
         dict_get procs' (''Zombie Process ('' @ str_nat k @ '')'') = None \<and>
         (\<forall>s' out procs'' pv st. get_status s' procs' = (Inr out, procs'') \<longrightarrow>
            (''Zombie Process ('' @ str_nat k @ '')'', pv, st) \<notin> set (models out)))"
  proof
    assume a: "dict_get procs (''Zombie Process ('' @ str_nat k @ '')'') = Some entry \<and>
      status entry = Zombie \<and>
      (os_kill s k = None \<or> os_kill s k = Some ProcessLookupError \<or> shell_kill s k = None)"
    have zn: "''Zombie Process ('' @ str_nat k @ '')'' = zombie_name k"
      by (simp add: zombie_name_def)
    have kz: "kill_zombie s (zombie_name k) = None"
      using a by (auto simp: kill_zombie_zombie_name split: option.splits)
    have st: "stop_server s (Some (zombie_name k)) procs =
        Some (\<lparr> resp_status = ''success'',
                 resp_message = MsgJoined [KilledZombie (zombie_name k)], resp_port = None \<rparr>,
              dict_del procs (zombie_name k))"
    proof (rule stop_zombie_entry [where info = entry])
      show "dict_get procs (zombie_name k) = Some entry" using a by (simp add: zombie_name_def)
      show "status entry = Zombie" using a by simp
      show "kill_zombie s (zombie_name k) = None" by (rule kz)
    qed
    have gone: "dict_get (dict_del procs (zombie_name k)) (zombie_name k) = None"
      by (rule dict_get_dict_del_same)
    have "(zombie_name k, pv, st) \<notin> set (models out)"
      if "get_status s' (dict_del procs (zombie_name k)) = (Inr out, procs'')"
      for s' out procs'' pv st
      using get_status_names [OF that, of "zombie_name k" pv st] gone
      by (auto simp: dict_get_None_iff)
    then show "\<exists>r procs'.
         stop_server s (Some (''Zombie Process ('' @ str_nat k @ '')'')) procs = Some (r, procs') \<and>
         resp_status r = ''success'' \<and>
         dict_get procs' (''Zombie Process ('' @ str_nat k @ '')'') = None \<and>
         (\<forall>s' out procs'' pv st. get_status s' procs' = (Inr out, procs'') \<longrightarrow>
            (''Zombie Process ('' @ str_nat k @ '')'', pv, st) \<notin> set (models out))"
      unfolding zn using st gone by auto
  qed
qed

theorem zombie_entry_name_and_stop_witness:
  "discover_running_processes [engine_proc 42] =
     [(''Zombie Process (42)'', \<lparr> process = Psutil 42, port = PortNA, status = Zombie \<rparr>)] \<and>
   os_kill os_signal_fails 42 = Some PermissionError \<and> shell_kill os_signal_fails 42 = None \<and>
   stop_server os_signal_fails (Some ''Zombie Process (42)'')
       (discover_running_processes [engine_proc 42]) =
     Some (\<lparr> resp_status = ''success'',
              resp_message = MsgJoined [KilledZombie ''Zombie Process (42)''],
              resp_port = None \<rparr>, []) \<and>
   get_status quiet_os [] = (Inr \<lparr> running = False, models = [] \<rparr>, [])"
proof -
  have n: "''Zombie Process ('' @ str_nat 42 @ '')'' = ''Zombie Process (42)''"
    using zombie_names(4) by (simp add: zombie_name_def)
  have k: "os_kill os_signal_fails 42 = Some PermissionError \<and> shell_kill os_signal_fails 42 = None"
    by (simp add: os_signal_fails_def quiet_os_def)
  have e: "stop_server os_signal_fails (Some ''Zombie Process (42)'')
       (discover_running_processes [engine_proc 42]) =
     Some (\<lparr> resp_status = ''success'',
              resp_message = MsgJoined [KilledZombie ''Zombie Process (42)''],
              resp_port = None \<rparr>, [])"
    by (simp add: discover_engine_42 stop_server_def resolve_targets_def stop_zombie_def
        kill_zombie_def is_digit_def os_signal_fails_def quiet_os_def)
  have g: "get_status quiet_os [] = (Inr \<lparr> running = False, models = [] \<rparr>, [])"
    by (simp add: get_status_def)
  show ?thesis
    using zombie_entry_name_and_stop [of "[engine_proc 42]"
        "discover_running_processes [engine_proc 42]" 42
        "\<lparr> process = Psutil 42, port = PortNA, status = Zombie \<rparr>" os_signal_fails]
      n k e g discover_engine_42
    by simp
qed

text \<open>
  C5 as stated fails on the name: the entry the scan creates for the engine process 42
  is called \<open>Zombie Process (42)\<close>, which is not of the form \<open>zombie (pid:42)\<close>.
\<close>

theorem zombie_name_differs:
  "discover_running_processes [engine_proc 42] =
     [(''Zombie Process (42)'', \<lparr> process = Psutil 42, port = PortNA, status = Zombie \<rparr>)] \<and>
   ''Zombie Process (42)'' \<noteq> ''zombie (pid:42)''"
  by (simp add: discover_engine_42)

subsection \<open>Repeated status calls\<close>

lemma status_loop_keys: "map fst (fst (status_loop s procs)) = map fst procs"
  by (induction procs) (auto split: sum.splits prod.splits)

lemma status_loop_remove_names:
  "status_loop s procs = (p1, Inr (active, remove)) \<Longrightarrow> n \<in> set remove \<Longrightarrow>
   n \<in> fst ` set procs"
proof (induction procs arbitrary: p1 active remove)
  case Nil
  then show ?case by simp
next
  case (Cons e rest)
  obtain name info where e: "e = (name, info)" by (cases e)
  obtain r1 res where sl: "status_loop s rest = (r1, res)" by (cases "status_loop s rest")
  from Cons.prems(1) e sl obtain a1 rm1 where res: "res = Inr (a1, rm1)"
    and rm: "set remove \<subseteq> insert name (set rm1)"
    by (auto split: sum.splits if_splits)
  from rm Cons.prems(2) consider "n = name" | "n \<in> set rm1" by auto
  then show ?case
  proof cases
    case 1
    then show ?thesis using e by simp
  next
    case 2
    then have "n \<in> fst ` set rest" using sl res Cons.IH by blast
    then show ?thesis by auto
  qed
qed

lemma dict_del_absent: "k \<notin> fst ` set r \<Longrightarrow> dict_del r k = r"
  by (induction r k rule: dict_del.induct) auto

lemma foldl_dict_del_head:
  "k \<notin> set ks \<Longrightarrow> foldl dict_del ((k, v) # r) ks = (k, v) # foldl dict_del r ks"
  by (induction ks arbitrary: r) auto

lemma probe_entry_process: "process (probe_entry s info) = process info"
  by (simp add: probe_entry_def split: port_val.splits)

lemma probe_entry_port: "port (probe_entry s info) = port info"
  by (simp add: probe_entry_def split: port_val.splits)

lemma probe_entry_twice: "probe_entry s (probe_entry s info) = probe_entry s info"
  by (simp add: probe_entry_def split: port_val.splits)

lemma status_loop_settled:
  assumes "distinct (map fst procs)"
    and "status_loop s procs = (p1, Inr (active, remove))"
  shows "status_loop s (foldl dict_del p1 remove) = (foldl dict_del p1 remove, Inr (active, []))"
  using assms
proof (induction procs arbitrary: p1 active remove)
  case Nil
  then show ?case by simp
next
  case (Cons e rest)
  obtain name info where e: "e = (name, info)" by (cases e)
  obtain r1 res where sl: "status_loop s rest = (r1, res)" by (cases "status_loop s rest")
  have fresh: "name \<notin> fst ` set rest" and dist: "distinct (map fst rest)"
    using Cons.prems(1) e by auto
  obtain d where dead: "is_dead s (process info) = Inr d"
    using Cons.prems(2) e by (cases "is_dead s (process info)") auto
  obtain a1 rm1 where res: "res = Inr (a1, rm1)"
    using Cons.prems(2) e sl dead by (cases res) (auto split: if_splits)
  have keys1: "map fst r1 = map fst rest" using status_loop_keys [of s rest] sl by simp
  have ih: "status_loop s (foldl dict_del r1 rm1) = (foldl dict_del r1 rm1, Inr (a1, []))"
    using Cons.IH [OF dist] sl res by simp
  show ?case
  proof (cases "d \<and> status info \<noteq> Zombie")
    case True
    then have shape: "p1 = (name, info) # r1" "active = a1" "remove = name # rm1"
      using Cons.prems(2) e sl dead res by auto
    have "name \<notin> fst ` set r1" using fresh keys1 by (metis list.set_map)
    then have "dict_del r1 name = r1" by (rule dict_del_absent)
    then have "foldl dict_del p1 remove = foldl dict_del r1 rm1"
      using shape by simp
    then show ?thesis using ih shape by simp
  next
    case False
    then have shape: "p1 = (name, probe_entry s info) # r1"
      "active = (name, port info, status (probe_entry s info)) # a1" "remove = rm1"
      using Cons.prems(2) e sl dead res by auto
    have "name \<notin> set rm1"
      using status_loop_remove_names [of s rest r1 a1 rm1 name] sl res fresh by auto
    then have fold: "foldl dict_del p1 remove = (name, probe_entry s info) # foldl dict_del r1 rm1"
      using shape by (simp add: foldl_dict_del_head)
    have keep: "\<not> (d \<and> status (probe_entry s info) \<noteq> Zombie)"
      using False by (simp add: probe_entry_zombie)
    show ?thesis
      unfolding fold using ih dead keep shape
      by (simp add: probe_entry_process probe_entry_port probe_entry_twice)
  qed
qed

lemma mixed_status: "get_status os_mixed mixed_registry =
    (Inr \<lparr> running = True,
            models = [(''a'', PortInt 8001, Running), (''Zombie Process (42)'', PortNA, Zombie)] \<rparr>,
     mixed_after)"
  by (simp add: get_status_def mixed_registry_def mixed_after_def os_mixed_def os_two_busy_def
      quiet_os_def is_dead_def probe_entry_def is_port_in_use_def)

text \<open>
  C9. A status call that follows a status call, with no start or stop in between and
  the operating system giving the same answers, returns the same result: the same
  \<open>running\<close> flag and the same list of models, in the same order, and it leaves the
  registry as the first call left it, so that every further call does the same. The
  keys of the registry are distinct, as those of a dictionary are.
\<close>

theorem status_idempotent:
  "distinct (dict_keys procs) \<and> get_status s procs = (Inr out, procs') \<longrightarrow>
     get_status s procs' = (Inr out, procs')"
proof
  assume a: "distinct (dict_keys procs) \<and> get_status s procs = (Inr out, procs')"
  obtain p1 res where sl: "status_loop s procs = (p1, res)" by (cases "status_loop s procs")
  obtain active remove where res: "res = Inr (active, remove)"
    using a sl by (cases res) (auto simp: get_status_def)
  have out: "out = \<lparr> running = (length active > 0), models = active \<rparr>"
    and p': "procs' = foldl dict_del p1 remove"
    using a sl res by (auto simp: get_status_def)
  have "status_loop s procs' = (procs', Inr (active, []))"
    unfolding p' using a sl res by (intro status_loop_settled [of procs]) (simp_all add: dict_keys_def)
  then show "get_status s procs' = (Inr out, procs')"
    using out by (simp add: get_status_def)
qed

theorem status_idempotent_witness:
  "distinct (dict_keys mixed_registry) \<and>
   get_status os_mixed mixed_registry =
    (Inr \<lparr> running = True,
            models = [(''a'', PortInt 8001, Running), (''Zombie Process (42)'', PortNA, Zombie)] \<rparr>,
     mixed_after) \<and>
   get_status os_mixed mixed_after =
    (Inr \<lparr> running = True,
            models = [(''a'', PortInt 8001, Running), (''Zombie Process (42)'', PortNA, Zombie)] \<rparr>,
     mixed_after)"
proof -
  have d: "distinct (dict_keys mixed_registry)"
    by (simp add: dict_keys_def mixed_registry_def)
  show ?thesis
    using status_idempotent [of mixed_registry os_mixed
        "\<lparr> running = True,
           models = [(''a'', PortInt 8001, Running), (''Zombie Process (42)'', PortNA, Zombie)] \<rparr>"
        mixed_after] d mixed_status
    by simp
qed

subsection \<open>Classification by the scan\<close>

lemma scan_args_followers:
  "scan_args args (m0, p0) =
     (last (m0 # followers ''serve'' args),
      last (p0 # List.map_filter py_int (followers ''--port'' args)))"
proof (induction args "(m0, p0)" arbitrary: m0 p0 rule: scan_args.induct)
  case 1
  show ?case by (simp add: map_filter_simps)
next
  case (2 a)
  show ?case by (simp add: map_filter_simps)
next
  case (3 a b rest m p)
  show ?case
    by (simp add: "3.hyps" map_filter_simps split: option.splits)
qed

lemma cmd_str_of_args:
  "info_cmdline pr = Some args \<Longrightarrow> ''serve'' \<in> set args \<Longrightarrow>
   cmd_str_of pr = Some (join_space args)"
  by (cases args) (simp_all add: cmd_str_of_def)

lemma serve_match_yes:
  assumes "info_cmdline pr = Some args" and "str_contains ''vllm'' (join_space args)"
    and "''serve'' \<in> set args"
  shows "serve_match pr = Inr (Some (scan_args args (''Unknown'', 8001)))"
  using assms by (simp add: serve_match_def cmd_str_of_args)

lemma serve_match_no:
  assumes "\<not> (\<exists>args. info_cmdline pr = Some args \<and> str_contains ''vllm'' (join_space args)
              \<and> ''serve'' \<in> set args)"
  shows "serve_match pr = Inr None \<or> (\<exists>e. serve_match pr = Inl e)"
proof (cases "info_cmdline pr")
  case None
  then show ?thesis by (simp add: serve_match_def cmd_str_of_def split: option.splits)
next
  case (Some args)
  show ?thesis
  proof (cases args)
    case Nil
    then show ?thesis using Some
      by (simp add: serve_match_def cmd_str_of_def split: option.splits)
  next
    case (Cons a as)
    then have "cmd_str_of pr = Some (join_space args)" using Some by (simp add: cmd_str_of_def)
    then show ?thesis using assms Some by (auto simp: serve_match_def)
  qed
qed

lemma gpt2_followers:
  "followers ''serve'' [''/usr/bin/vllm'', ''serve'', ''gpt2'', ''--port'', ''8005''] = [''gpt2'']"
  "followers ''--port'' [''/usr/bin/vllm'', ''serve'', ''gpt2'', ''--port'', ''8005''] = [''8005'']"
  by simp_all

lemma py_int_8005: "py_int ''8005'' = Some 8005"
  by (simp add: py_int_def strip_def is_space_def is_digit_def nat_of_digits_def digit_val_def
      max_str_digits_def)

lemma py_int_80a: "py_int ''80a'' = None"
  by (simp add: py_int_def strip_def is_space_def is_digit_def)

lemma discover_bare_serve:
  "discover_running_processes [bare_serve_proc] =
     [(''Unknown (PID:5)'', \<lparr> process = Psutil 5, port = PortInt 8001, status = Running \<rparr>)]"
  by (simp add: discover_running_processes_def discover_one_def serve_match_def cmd_str_of_def
      bare_serve_proc_def display_name_def py_int_80a str_nat.simps digit_char_def)

text \<open>
  C4. The loop body of the scan records a process as a running serving instance
  exactly when its argument list is visible, the arguments joined by blanks contain
  \<open>vllm\<close>, and \<open>serve\<close> is one of the arguments. The model identifier is then the token
  that immediately follows \<open>serve\<close> (the last such token if \<open>serve\<close> occurs more than
  once), and \<open>Unknown\<close> if there is none, in which case the entry is named
  \<open>Unknown (PID:<pid>)\<close>; the port is the value of the token that immediately follows
  \<open>--port\<close> (the last one that parses), a token that does not parse is passed over, and
  the port is 8001 if none parses. In every other case the loop body adds no running
  entry: it leaves the registry as it is, adds a zombie entry, or ends the scan.
\<close>

theorem discovery_classification:
  "(info_cmdline pr = Some args \<and> str_contains ''vllm'' (join_space args)
      \<and> ''serve'' \<in> set args \<longrightarrow>
      discover_one pr procs =
        Inr (dict_set procs
               (if last (''Unknown'' # followers ''serve'' args) = ''Unknown''
                then ''Unknown (PID:'' @ str_nat (info_pid pr) @ '')''
                else last (''Unknown'' # followers ''serve'' args))
               \<lparr> process = Psutil (info_pid pr),
                 port = PortInt (last (8001 # List.map_filter py_int (followers ''--port'' args))),
                 status = Running \<rparr>)) \<and>
   (\<not> (\<exists>args. info_cmdline pr = Some args \<and> str_contains ''vllm'' (join_space args)
              \<and> ''serve'' \<in> set args) \<longrightarrow>
      (\<forall>procs'. discover_one pr procs = Inr procs' \<longrightarrow>
         procs' = procs \<or>
         procs' = dict_set procs (''Zombie Process ('' @ str_nat (info_pid pr) @ '')'')
                    \<lparr> process = Psutil (info_pid pr), port = PortNA, status = Zombie \<rparr>))"
proof (intro conjI impI)
  assume a: "info_cmdline pr = Some args \<and> str_contains ''vllm'' (join_space args)
      \<and> ''serve'' \<in> set args"
  then have "serve_match pr = Inr (Some (scan_args args (''Unknown'', 8001)))"
    by (simp add: serve_match_yes)
  then show "discover_one pr procs =
        Inr (dict_set procs
               (if last (''Unknown'' # followers ''serve'' args) = ''Unknown''
                then ''Unknown (PID:'' @ str_nat (info_pid pr) @ '')''
                else last (''Unknown'' # followers ''serve'' args))
               \<lparr> process = Psutil (info_pid pr),
                 port = PortInt (last (8001 # List.map_filter py_int (followers ''--port'' args))),
                 status = Running \<rparr>)"
    by (simp add: discover_one_def scan_args_followers display_name_def)
next
  assume n: "\<not> (\<exists>args. info_cmdline pr = Some args \<and> str_contains ''vllm'' (join_space args)
              \<and> ''serve'' \<in> set args)"
  from serve_match_no [OF n]
  show "\<forall>procs'. discover_one pr procs = Inr procs' \<longrightarrow>
         procs' = procs \<or>
         procs' = dict_set procs (''Zombie Process ('' @ str_nat (info_pid pr) @ '')'')
                    \<lparr> process = Psutil (info_pid pr), port = PortNA, status = Zombie \<rparr>"
    by (auto simp: discover_one_def zombie_name_def split: sum.splits bool.splits if_splits)
qed

text \<open>
  Examples: the arguments \<open>/usr/bin/vllm serve gpt2 --port 8005\<close> give a running entry
  \<open>gpt2\<close> on port 8005; an engine process gives a zombie entry and no running one; and
  a process whose \<open>serve\<close> is the last argument and whose port is \<open>80a\<close> gives the
  defaults.
\<close>

theorem discovery_classification_witness:
  "discover_running_processes [gpt2_proc] =
     [(''gpt2'', \<lparr> process = Psutil 77, port = PortInt 8005, status = Running \<rparr>)] \<and>
   discover_one gpt2_proc [] =
     Inr [(''gpt2'', \<lparr> process = Psutil 77, port = PortInt 8005, status = Running \<rparr>)] \<and>
   discover_one (engine_proc 42) [] =
     Inr [(''Zombie Process (42)'', \<lparr> process = Psutil 42, port = PortNA, status = Zombie \<rparr>)] \<and>
   discover_running_processes [bare_serve_proc] =
     [(''Unknown (PID:5)'', \<lparr> process = Psutil 5, port = PortInt 8001, status = Running \<rparr>)]"
proof -
  have c: "info_cmdline gpt2_proc
        = Some [''/usr/bin/vllm'', ''serve'', ''gpt2'', ''--port'', ''8005''] \<and>
      str_contains ''vllm'' (join_space [''/usr/bin/vllm'', ''serve'', ''gpt2'', ''--port'', ''8005'']) \<and>
      ''serve'' \<in> set [''/usr/bin/vllm'', ''serve'', ''gpt2'', ''--port'', ''8005'']"
    by (simp add: gpt2_proc_def)
  have one: "discover_one gpt2_proc [] =
     Inr [(''gpt2'', \<lparr> process = Psutil 77, port = PortInt 8005, status = Running \<rparr>)]"
    using discovery_classification
      [of gpt2_proc "[''/usr/bin/vllm'', ''serve'', ''gpt2'', ''--port'', ''8005'']" "[]"] c
    by (simp add: gpt2_followers py_int_8005 map_filter_simps gpt2_proc_def)
  have n: "\<not> (\<exists>args. info_cmdline (engine_proc 42) = Some args
        \<and> str_contains ''vllm'' (join_space args) \<and> ''serve'' \<in> set args)"
    by (simp add: engine_proc_def)
  have e: "discover_one (engine_proc 42) [] =
     Inr [(''Zombie Process (42)'', \<lparr> process = Psutil 42, port = PortNA, status = Zombie \<rparr>)]"
    by (simp add: discover_engine zombie_names)
  have two: "[(''Zombie Process (42)'', \<lparr> process = Psutil 42, port = PortNA, status = Zombie \<rparr>)]
      = [] \<or>
    [(''Zombie Process (42)'', \<lparr> process = Psutil 42, port = PortNA, status = Zombie \<rparr>)]
      = dict_set [] (''Zombie Process ('' @ str_nat (info_pid (engine_proc 42)) @ '')'')
          \<lparr> process = Psutil (info_pid (engine_proc 42)), port = PortNA, status = Zombie \<rparr>"
    using discovery_classification [of "engine_proc 42" undefined "[]"] n e by blast
  show ?thesis
    using one e two discover_bare_serve by (simp add: discover_running_processes_def)
qed

end
